theory Spec2Isabelle
  imports Complex_Main
begin

section \<open>NumPy arrays, Python values and errors\<close>

text \<open>
  The notebook works on two-dimensional NumPy arrays. An array is its shape and its
  row-major buffer. Entries are idealised as real numbers.
\<close>

datatype ndarray = NDArray (nrows: nat) (ncols: nat) (data: "real list")

definition entry :: "ndarray \<Rightarrow> nat \<Rightarrow> nat \<Rightarrow> real" where
  "entry A i j = data A ! (i * ncols A + j)"

definition tabulate :: "nat \<Rightarrow> nat \<Rightarrow> (nat \<Rightarrow> nat \<Rightarrow> real) \<Rightarrow> ndarray" where
  "tabulate r c f = NDArray r c (concat (map (\<lambda>i. map (f i) [0..<c]) [0..<r]))"

text \<open>The exceptions the notebook's functions can raise.\<close>

datatype py_error = KeyError string | IndexError | ValueError | TypeError | MemoryError

text \<open>
  The model is a \<^verbatim>\<open>dict\<close> from strings to either an integer (\<^verbatim>\<open>nlayers\<close>) or a
  list of arrays (every other key).
\<close>

datatype pyval = PyInt int | PyList "ndarray list"

type_synonym model = "string \<rightharpoonup> pyval"

text \<open>\<^verbatim>\<open>model[key]\<close>: a missing key raises \<^verbatim>\<open>KeyError\<close>.\<close>

definition getitem :: "model \<Rightarrow> string \<Rightarrow> py_error + pyval" where
  "getitem m k = (case m k of None \<Rightarrow> Inl (KeyError k) | Some v \<Rightarrow> Inr v)"

text \<open>Iterating, indexing or slicing a value: an integer raises \<^verbatim>\<open>TypeError\<close>.\<close>

definition as_list :: "pyval \<Rightarrow> py_error + ndarray list" where
  "as_list v = (case v of PyInt _ \<Rightarrow> Inl TypeError | PyList xs \<Rightarrow> Inr xs)"

text \<open>Sequencing: the first exception raised ends the call.\<close>

definition bind_ok :: "'e + 'a \<Rightarrow> ('a \<Rightarrow> 'e + 'b) \<Rightarrow> 'e + 'b" where
  "bind_ok r f = (case r of Inl e \<Rightarrow> Inl e | Inr v \<Rightarrow> f v)"

text \<open>An exception raised while the dictionary \<open>m\<close> has been changed in place.\<close>

definition raised_in :: "'m \<Rightarrow> 'e + 'a \<Rightarrow> ('e \<times> 'm) + 'a" where
  "raised_in m r = (case r of Inl e \<Rightarrow> Inl (e, m) | Inr v \<Rightarrow> Inr v)"

text \<open>\<^verbatim>\<open>xs[i]\<close> on a list: negative indices count from the end, out of range raises.\<close>

definition index :: "'a list \<Rightarrow> int \<Rightarrow> py_error + 'a" where
  "index xs i =
     (if 0 \<le> i \<and> i < int (length xs) then Inr (xs ! nat i)
      else if i < 0 \<and> - int (length xs) \<le> i then Inr (xs ! nat (int (length xs) + i))
      else Inl IndexError)"

text \<open>
  \<^verbatim>\<open>xs[start:stop:-1]\<close>: a slice with step \<open>-1\<close>. A bound that is left out is
  \<open>None\<close>. A negative bound has the length added once; the start is then clamped to
  \<open>-1 .. n-1\<close>, and so is the stop. The slice holds the elements at the indices
  \<open>start, start-1, ...\<close> down to, and without, \<open>stop\<close>.
\<close>

definition slice_back :: "'a list \<Rightarrow> int option \<Rightarrow> int option \<Rightarrow> 'a list" where
  "slice_back xs start stop =
     (let n = int (length xs);
          clamp = (\<lambda>i. let j = (if i < 0 then i + n else i)
                       in if j < 0 then -1 else if n \<le> j then n - 1 else j);
          hi = (case start of None \<Rightarrow> n - 1 | Some i \<Rightarrow> clamp i);
          lo = (case stop of None \<Rightarrow> -1 | Some i \<Rightarrow> clamp i)
      in rev (drop (nat (lo + 1)) (take (nat (hi + 1)) xs)))"

subsection \<open>Array operations\<close>

text \<open>
  \<^verbatim>\<open>np.random.randn(d0, d1)\<close> reads and changes two things outside the program: the
  global generator, modelled as the stream of its future draws, and the memory of the
  machine, modelled as the number of \<^verbatim>\<open>float64\<close> entries that can still be allocated.
\<close>

record runtime =
  draws :: "nat \<Rightarrow> real"
  free_entries :: nat

type_synonym gen = runtime

text \<open>
  NumPy (on a 64-bit machine) raises \<^verbatim>\<open>ValueError\<close> for a negative extent, for an extent
  above \<open>2\<^sup>6\<^sup>3 - 1\<close>, and for an array of more than \<open>2\<^sup>6\<^sup>3 - 1\<close> bytes: the byte count is 8,
  for one \<^verbatim>\<open>float64\<close> entry, multiplied by the extents that are not zero. An array
  within these limits is then allocated, which raises \<^verbatim>\<open>MemoryError\<close> when the machine
  does not have the memory. The arrays of the initializer stay alive, so an array that
  is returned takes its entries from what is free. The other array operations are
  modelled without the allocator: there an allocation is taken to succeed.
\<close>

definition max_intp :: int where
  "max_intp = 2 ^ 63 - 1"

definition randn_shape_ok :: "int \<Rightarrow> int \<Rightarrow> bool" where
  "randn_shape_ok d0 d1 =
     (0 \<le> d0 \<and> 0 \<le> d1 \<and> d0 \<le> max_intp \<and> d1 \<le> max_intp \<and>
      8 * (if d0 = 0 then 1 else d0) * (if d1 = 0 then 1 else d1) \<le> max_intp)"

definition randn :: "int \<Rightarrow> int \<Rightarrow> gen \<Rightarrow> py_error + (ndarray \<times> gen)" where
  "randn d0 d1 gen =
     (if randn_shape_ok d0 d1
      then let r = nat d0; c = nat d1
           in if r * c \<le> free_entries gen
              then Inr (tabulate r c (\<lambda>i j. draws gen (i * c + j)),
                        gen\<lparr>draws := (\<lambda>k. draws gen (k + r * c)),
                            free_entries := free_entries gen - r * c\<rparr>)
              else Inl MemoryError
      else Inl ValueError)"

definition ones :: "nat \<Rightarrow> nat \<Rightarrow> ndarray" where
  "ones r c = tabulate r c (\<lambda>i j. 1)"

definition transpose_arr :: "ndarray \<Rightarrow> ndarray" where
  "transpose_arr A = tabulate (ncols A) (nrows A) (\<lambda>i j. entry A j i)"

definition map_arr :: "(real \<Rightarrow> real) \<Rightarrow> ndarray \<Rightarrow> ndarray" where
  "map_arr f A = NDArray (nrows A) (ncols A) (map f (data A))"

text \<open>The matrix product, and \<^verbatim>\<open>A @ B\<close> (also \<^verbatim>\<open>np.dot\<close> on two-dimensional
  arrays), which raises when the inner dimensions differ.\<close>

definition mat_mul :: "ndarray \<Rightarrow> ndarray \<Rightarrow> ndarray" where
  "mat_mul A B = tabulate (nrows A) (ncols B)
     (\<lambda>i j. sum_list (map (\<lambda>k. entry A i k * entry B k j) [0..<ncols A]))"

definition matmul :: "ndarray \<Rightarrow> ndarray \<Rightarrow> py_error + ndarray" where
  "matmul A B = (if ncols A = nrows B then Inr (mat_mul A B) else Inl ValueError)"

text \<open>
  Broadcasting of an elementwise binary operation: two extents are compatible when they
  are equal or one of them is 1; an axis of extent 1 is stretched to the other extent.
\<close>

definition compat :: "nat \<Rightarrow> nat \<Rightarrow> bool" where
  "compat m n = (m = n \<or> m = 1 \<or> n = 1)"

definition bdim :: "nat \<Rightarrow> nat \<Rightarrow> nat" where
  "bdim m n = (if m = 1 then n else m)"

definition bidx :: "nat \<Rightarrow> nat \<Rightarrow> nat" where
  "bidx m i = (if m = 1 then 0 else i)"

definition bc :: "(real \<Rightarrow> real \<Rightarrow> real) \<Rightarrow> ndarray \<Rightarrow> ndarray \<Rightarrow> ndarray" where
  "bc f A B = tabulate (bdim (nrows A) (nrows B)) (bdim (ncols A) (ncols B))
     (\<lambda>i j. f (entry A (bidx (nrows A) i) (bidx (ncols A) j))
              (entry B (bidx (nrows B) i) (bidx (ncols B) j)))"

definition broadcast :: "(real \<Rightarrow> real \<Rightarrow> real) \<Rightarrow> ndarray \<Rightarrow> ndarray \<Rightarrow> py_error + ndarray" where
  "broadcast f A B =
     (if compat (nrows A) (nrows B) \<and> compat (ncols A) (ncols B) then Inr (bc f A B)
      else Inl ValueError)"

section \<open>The notebook's functions\<close>

subsection \<open>\<^verbatim>\<open>initialize_model\<close>\<close>

text \<open>The loop \<^verbatim>\<open>for l in range(L)\<close>, over the list of its indices.\<close>

fun initialize_loop ::
  "int list \<Rightarrow> nat list \<Rightarrow> ndarray list \<Rightarrow> ndarray list \<Rightarrow> gen
    \<Rightarrow> py_error + (ndarray list \<times> ndarray list \<times> gen)" where
  "initialize_loop dimensions [] weights biases gen = Inr (weights, biases, gen)"
| "initialize_loop dimensions (l # ls) weights biases gen =
     bind_ok (index dimensions (int l + 1)) (\<lambda>d1.
     bind_ok (index dimensions (int l)) (\<lambda>d0.
     bind_ok (randn d1 d0 gen) (\<lambda>(W, gen1).
     bind_ok (index dimensions (int l + 1)) (\<lambda>d1'.
     bind_ok (randn d1' 1 gen1) (\<lambda>(b, gen2).
       initialize_loop dimensions ls (weights @ [W]) (biases @ [b]) gen2)))))"

definition initialize_model :: "int list \<Rightarrow> gen \<Rightarrow> py_error + (model \<times> gen)" where
  "initialize_model dimensions gen =
     (let L = int (length dimensions) - 1
      in case initialize_loop dimensions [0..<nat L] [] [] gen of
           Inl e \<Rightarrow> Inl e
         | Inr (weights, biases, gen') \<Rightarrow>
             Inr ([''weights'' \<mapsto> PyList weights, ''biases'' \<mapsto> PyList biases,
                   ''nlayers'' \<mapsto> PyInt L], gen'))"

text \<open>The \<^verbatim>\<open>float64\<close> entries the loop allocates at index \<open>l\<close>, for the weight matrix
  and the bias vector of one layer, and those of the whole model.\<close>

definition layer_entries :: "int list \<Rightarrow> nat \<Rightarrow> nat" where
  "layer_entries dimensions l =
     nat (dimensions ! Suc l) * nat (dimensions ! l) + nat (dimensions ! Suc l) * nat 1"

definition model_entries :: "int list \<Rightarrow> nat" where
  "model_entries dimensions =
     sum_list (map (layer_entries dimensions) [0..<length dimensions - 1])"

subsection \<open>Activation and loss\<close>

text \<open>\<^verbatim>\<open>g\<close> and \<^verbatim>\<open>g_prime\<close> work elementwise. In \<^verbatim>\<open>g_prime\<close> the product is of
  two arrays of the shape of \<open>x\<close>, so broadcasting cannot raise there.\<close>

definition g :: "ndarray \<Rightarrow> ndarray" where
  "g x = map_arr (\<lambda>v. 1 / (1 + exp (- v))) x"

definition g_prime :: "ndarray \<Rightarrow> ndarray" where
  "g_prime x = bc (*) (g x) (map_arr (\<lambda>v. 1 - v) (g x))"

definition loss :: "ndarray \<Rightarrow> ndarray \<Rightarrow> py_error + real" where
  "loss yhat y =
     (case broadcast (-) yhat y of Inl e \<Rightarrow> Inl e
      | Inr d \<Rightarrow> Inr (0.5 * sum_list (map (\<lambda>v. v * v) (data d))))"

definition loss_prime :: "ndarray \<Rightarrow> ndarray \<Rightarrow> py_error + ndarray" where
  "loss_prime yhat y = broadcast (-) yhat y"

subsection \<open>\<^verbatim>\<open>forward\<close>\<close>

text \<open>The loop over \<^verbatim>\<open>zip(model['weights'], model['biases'])\<close>, carrying \<open>a\<close>,
  \<open>activations\<close> and \<open>zs\<close>.\<close>

fun forward_loop ::
  "(ndarray \<times> ndarray) list \<Rightarrow> ndarray \<Rightarrow> ndarray list \<Rightarrow> ndarray list
    \<Rightarrow> py_error + (ndarray \<times> ndarray list \<times> ndarray list)" where
  "forward_loop [] a activations zs = Inr (a, activations, zs)"
| "forward_loop ((W, b) # rest) a activations zs =
     (case matmul W a of Inl e \<Rightarrow> Inl e | Inr Wa \<Rightarrow>
      case broadcast (+) Wa b of Inl e \<Rightarrow> Inl e | Inr z \<Rightarrow>
        forward_loop rest (g z) (activations @ [g z]) (zs @ [z]))"

text \<open>The dictionary is written only after the loop, so a call that raises leaves it
  as it was.\<close>

definition forward :: "ndarray \<Rightarrow> model \<Rightarrow> py_error + (ndarray \<times> model)" where
  "forward x model =
     bind_ok (getitem model ''weights'') (\<lambda>wv.
     bind_ok (getitem model ''biases'') (\<lambda>bv.
     bind_ok (as_list wv) (\<lambda>weights.
     bind_ok (as_list bv) (\<lambda>biases.
     bind_ok (forward_loop (zip weights biases) x [x] []) (\<lambda>(a, activations, zs).
       Inr (a, model(''activations'' \<mapsto> PyList activations, ''w_inputs'' \<mapsto> PyList zs)))))))"

subsection \<open>\<^verbatim>\<open>backward\<close>\<close>

text \<open>One gradient pair from an error term: \<^verbatim>\<open>delta @ np.ones((Nbatch, 1))\<close> and
  \<^verbatim>\<open>np.dot(delta, a.T)\<close>, in this order.\<close>

definition grads :: "nat \<Rightarrow> ndarray \<Rightarrow> ndarray \<Rightarrow> py_error + (ndarray \<times> ndarray)" where
  "grads Nbatch delta a =
     (case matmul delta (ones Nbatch 1) of Inl e \<Rightarrow> Inl e | Inr grad_b \<Rightarrow>
      case matmul delta (transpose_arr a) of Inl e \<Rightarrow> Inl e | Inr grad_W \<Rightarrow>
        Inr (grad_b, grad_W))"

text \<open>The loop over \<open>loop_iterates\<close>, carrying \<open>delta\<close> and the two gradient lists.\<close>

fun backward_loop ::
  "(ndarray \<times> ndarray \<times> ndarray) list \<Rightarrow> nat \<Rightarrow> ndarray \<Rightarrow> ndarray list \<Rightarrow> ndarray list
    \<Rightarrow> py_error + (ndarray list \<times> ndarray list)" where
  "backward_loop [] Nbatch delta grad_weights grad_biases = Inr (grad_weights, grad_biases)"
| "backward_loop ((W, z, a) # rest) Nbatch delta grad_weights grad_biases =
     (case matmul (transpose_arr W) delta of Inl e \<Rightarrow> Inl e | Inr Wd \<Rightarrow>
      case broadcast (*) Wd (g_prime z) of Inl e \<Rightarrow> Inl e | Inr delta' \<Rightarrow>
      case grads Nbatch delta' a of Inl e \<Rightarrow> Inl e | Inr (grad_b, grad_W) \<Rightarrow>
        backward_loop rest Nbatch delta' (grad_weights @ [grad_W]) (grad_biases @ [grad_b]))"

definition backward :: "ndarray \<Rightarrow> model \<Rightarrow> py_error + model" where
  "backward y model =
     (let Nbatch = ncols y in
      bind_ok (getitem model ''activations'') (\<lambda>av.
      bind_ok (as_list av) (\<lambda>activations.
      bind_ok (index activations (-1)) (\<lambda>yhat.
      bind_ok (getitem model ''w_inputs'') (\<lambda>zv.
      bind_ok (as_list zv) (\<lambda>w_inputs.
      bind_ok (index w_inputs (-1)) (\<lambda>z.
      bind_ok (index activations (-2)) (\<lambda>a.
      bind_ok (loss_prime yhat y) (\<lambda>lp.
      bind_ok (broadcast (*) lp (g_prime z)) (\<lambda>delta.
      bind_ok (grads Nbatch delta a) (\<lambda>(grad_b, grad_W).
      bind_ok (getitem model ''weights'') (\<lambda>wv.
      bind_ok (as_list wv) (\<lambda>weights.
      bind_ok (backward_loop
                 (zip (slice_back weights (Some (-1)) (Some 0))
                    (zip (slice_back w_inputs (Some (-2)) None)
                         (slice_back activations (Some (-3)) None)))
                 Nbatch delta [grad_W] [grad_b]) (\<lambda>(grad_weights, grad_biases).
        Inr (model(''grad_weights'' \<mapsto> PyList (slice_back grad_weights None None),
                   ''grad_biases'' \<mapsto> PyList (slice_back grad_biases None None)))))))))))))))))"

subsection \<open>\<^verbatim>\<open>update\<close>\<close>

text \<open>
  \<^verbatim>\<open>del model[key]\<close> for each key of the list; a missing key raises \<^verbatim>\<open>KeyError\<close>.
  The dictionary is changed in place, so an error comes with the dictionary as it is
  when the exception is raised.
\<close>

fun del_keys :: "string list \<Rightarrow> model \<Rightarrow> (py_error \<times> model) + model" where
  "del_keys [] model = Inr model"
| "del_keys (key # keys) model =
     (if model key = None then Inl (KeyError key, model)
      else del_keys keys (model(key := None)))"

fun update_loop ::
  "real \<Rightarrow> (ndarray \<times> ndarray \<times> ndarray \<times> ndarray) list \<Rightarrow> ndarray list \<Rightarrow> ndarray list
    \<Rightarrow> py_error + (ndarray list \<times> ndarray list)" where
  "update_loop eta [] new_weights new_biases = Inr (new_weights, new_biases)"
| "update_loop eta ((W, b, dW, db) # rest) new_weights new_biases =
     (case broadcast (-) W (map_arr (\<lambda>v. eta * v) dW) of Inl e \<Rightarrow> Inl e | Inr W' \<Rightarrow>
      case broadcast (-) b (map_arr (\<lambda>v. eta * v) db) of Inl e \<Rightarrow> Inl e | Inr b' \<Rightarrow>
        update_loop eta rest (new_weights @ [W']) (new_biases @ [b']))"

text \<open>The keys are deleted first; the four lookups that follow are the arguments of
  \<^verbatim>\<open>zip\<close>, evaluated from left to right before \<^verbatim>\<open>zip\<close> looks at any of them.\<close>

definition update :: "real \<Rightarrow> model \<Rightarrow> (py_error \<times> model) + model" where
  "update eta model =
     bind_ok (del_keys [''activations'', ''w_inputs'', ''grad_weights'', ''grad_biases''] model)
       (\<lambda>model1. raised_in model1
         (bind_ok (getitem model1 ''weights'') (\<lambda>wv.
          bind_ok (getitem model1 ''biases'') (\<lambda>bv.
          bind_ok (getitem model1 ''grad_weights'') (\<lambda>dwv.
          bind_ok (getitem model1 ''grad_biases'') (\<lambda>dbv.
          bind_ok (as_list wv) (\<lambda>weights.
          bind_ok (as_list bv) (\<lambda>biases.
          bind_ok (as_list dwv) (\<lambda>grad_weights.
          bind_ok (as_list dbv) (\<lambda>grad_biases.
          bind_ok (update_loop eta (zip weights (zip biases (zip grad_weights grad_biases))) [] [])
            (\<lambda>(new_weights, new_biases).
               Inr (model1(''weights'' \<mapsto> PyList new_weights,
                           ''biases'' \<mapsto> PyList new_biases)))))))))))))"

subsection \<open>One epoch of the training loop\<close>

text \<open>The body of the loop \<^verbatim>\<open>for epoch in range(n_epochs)\<close>: \<^verbatim>\<open>forward\<close>,
  \<^verbatim>\<open>backward\<close>, \<^verbatim>\<open>update\<close>, then the loss of the output.\<close>

definition epoch :: "real \<Rightarrow> ndarray \<Rightarrow> ndarray \<Rightarrow> model \<Rightarrow> (py_error \<times> model) + (real \<times> model)" where
  "epoch eta X y model =
     bind_ok (raised_in model (forward X model)) (\<lambda>(yhat, model1).
     bind_ok (raised_in model1 (backward y model1)) (\<lambda>model2.
     bind_ok (update eta model2) (\<lambda>model3.
     bind_ok (raised_in model3 (loss yhat y)) (\<lambda>err. Inr (err, model3)))))"

subsection \<open>Concrete inputs\<close>

text \<open>A generator whose \<open>k\<close>-th draw is \<open>k\<close>, on a machine with room for a thousand
  entries, for evaluating the functions on concrete inputs.\<close>

definition count_gen :: gen where
  "count_gen = \<lparr>draws = (\<lambda>k. real k), free_entries = 1000\<rparr>"

text \<open>The model \<^verbatim>\<open>initialize_model([2, 1])\<close> builds from the draws 0, 1, 2, one input column
  and one target.\<close>

definition small_model :: model where
  "small_model = [''weights'' \<mapsto> PyList [NDArray 1 2 [0, 1]],
                  ''biases'' \<mapsto> PyList [NDArray 1 1 [2]],
                  ''nlayers'' \<mapsto> PyInt 1]"

definition small_x :: ndarray where
  "small_x = NDArray 2 1 [3, - 2]"

definition small_y :: ndarray where
  "small_y = NDArray 1 1 [1]"

text \<open>The model \<^verbatim>\<open>initialize_model([5])\<close> builds: no layers.\<close>

definition empty_model :: model where
  "empty_model = [''weights'' \<mapsto> PyList [], ''biases'' \<mapsto> PyList [], ''nlayers'' \<mapsto> PyInt 0]"

text \<open>An input of three rows, which the two-input model cannot take.\<close>

definition tall_x :: ndarray where
  "tall_x = NDArray 3 1 [1, 2, 3]"

text \<open>The same dictionary after \<^verbatim>\<open>forward\<close>, and after \<^verbatim>\<open>backward\<close>.\<close>

definition small_forward :: model where
  "small_forward = small_model(''activations'' \<mapsto> PyList [small_x, NDArray 1 1 [1 / 2]],
                               ''w_inputs'' \<mapsto> PyList [NDArray 1 1 [0]])"

definition small_backward :: model where
  "small_backward = small_forward(''grad_weights'' \<mapsto> PyList [NDArray 1 2 [- 3 / 8, 1 / 4]],
                                  ''grad_biases'' \<mapsto> PyList [NDArray 1 1 [- 1 / 8]])"

subsection \<open>Well-shaped networks\<close>

text \<open>
  The data model's invariant for layer widths \<open>d\<^sub>0, d\<^sub>1, ..., d\<^sub>L\<close>: there are \<open>L\<close> weight
  matrices and \<open>L\<close> bias vectors, the \<open>l\<close>-th weight matrix is \<open>d\<^sub>l \<times> d\<^sub>l\<^sub>-\<^sub>1\<close> and the
  \<open>l\<close>-th bias vector is \<open>d\<^sub>l \<times> 1\<close>.
\<close>

fun net_shaped :: "nat list \<Rightarrow> ndarray list \<Rightarrow> ndarray list \<Rightarrow> bool" where
  "net_shaped (d0 # d1 # ds) (W # ws) (b # bs) =
     (nrows W = d1 \<and> ncols W = d0 \<and> nrows b = d1 \<and> ncols b = 1 \<and> net_shaped (d1 # ds) ws bs)"
| "net_shaped [d] [] [] = True"
| "net_shaped _ _ _ = False"

subsection \<open>The error terms of the specification\<close>

text \<open>
  The specification's error terms, written from its words and not from the code:
  \<open>\<delta>\<^sub>L = lossGradient(a\<^sub>L, y) \<odot> activationDerivative(z\<^sub>L)\<close> and, for \<open>l > 1\<close>,
  \<open>\<delta>\<^sub>l\<^sub>-\<^sub>1 = (W\<^sub>l)\<^sup>T \<delta>\<^sub>l \<odot> activationDerivative(z\<^sub>l\<^sub>-\<^sub>1)\<close>. The recursion runs on the
  distance \<open>k = L - l\<close> from the output layer, so \<open>spec_delta ... k\<close> is \<open>\<delta>\<^sub>L\<^sub>-\<^sub>k\<close>; layer \<open>l\<close>
  has its weight matrix at index \<open>l - 1\<close> of \<open>weights\<close> and its weighted input at index
  \<open>l - 1\<close> of \<open>zs\<close>.
\<close>

fun spec_delta :: "ndarray list \<Rightarrow> ndarray list \<Rightarrow> ndarray list \<Rightarrow> ndarray \<Rightarrow> nat \<Rightarrow> ndarray" where
  "spec_delta weights zs activations y 0 =
     bc (*) (bc (-) (last activations) y) (g_prime (last zs))"
| "spec_delta weights zs activations y (Suc k) =
     bc (*) (mat_mul (transpose_arr (weights ! (length weights - Suc k)))
                     (spec_delta weights zs activations y k))
            (g_prime (zs ! (length weights - Suc (Suc k))))"

text \<open>\<open>\<delta>\<^sub>l\<close> for a layer \<open>l\<close> in \<open>1..L\<close>.\<close>

definition layer_delta :: "ndarray list \<Rightarrow> ndarray list \<Rightarrow> ndarray list \<Rightarrow> ndarray \<Rightarrow> nat \<Rightarrow> ndarray" where
  "layer_delta weights zs activations y l =
     spec_delta weights zs activations y (length weights - l)"

section \<open>Properties\<close>

subsection \<open>Basic facts about arrays and lookups\<close>

lemma bind_ok_simps [simp]:
  "bind_ok (Inl e) f = Inl e" "bind_ok (Inr v) f = f v"
  by (simp_all add: bind_ok_def)

lemma raised_in_simps [simp]:
  "raised_in m (Inl e) = Inl (e, m)" "raised_in m (Inr v) = Inr v"
  by (simp_all add: raised_in_def)

lemma shape_tabulate [simp]: "nrows (tabulate r c f) = r" "ncols (tabulate r c f) = c"
  by (simp_all add: tabulate_def)

lemma shape_ones [simp]: "nrows (ones r c) = r" "ncols (ones r c) = c"
  by (simp_all add: ones_def)

lemma shape_transpose_arr [simp]:
  "nrows (transpose_arr A) = ncols A" "ncols (transpose_arr A) = nrows A"
  by (simp_all add: transpose_arr_def)

lemma shape_map_arr [simp]: "nrows (map_arr f A) = nrows A" "ncols (map_arr f A) = ncols A"
  by (simp_all add: map_arr_def)

lemma shape_mat_mul [simp]: "nrows (mat_mul A B) = nrows A" "ncols (mat_mul A B) = ncols B"
  by (simp_all add: mat_mul_def)

lemma shape_bc [simp]:
  "nrows (bc f A B) = bdim (nrows A) (nrows B)" "ncols (bc f A B) = bdim (ncols A) (ncols B)"
  by (simp_all add: bc_def)

lemma bdim_simps [simp]: "bdim n n = n" "bdim n 1 = n" "bdim n (Suc 0) = n"
  by (simp_all add: bdim_def)

lemma compat_simps [simp]: "compat n n" "compat n 1" "compat n (Suc 0)"
  by (simp_all add: compat_def)

lemma shape_g [simp]: "nrows (g x) = nrows x" "ncols (g x) = ncols x"
  by (simp_all add: g_def)

lemma shape_g_prime [simp]: "nrows (g_prime x) = nrows x" "ncols (g_prime x) = ncols x"
  by (simp_all add: g_prime_def)

lemma getitem_Some: "m k = Some v \<Longrightarrow> getitem m k = Inr v"
  by (simp add: getitem_def)

lemma getitem_None: "m k = None \<Longrightarrow> getitem m k = Inl (KeyError k)"
  by (simp add: getitem_def)

lemma as_list_simps [simp]: "as_list (PyList xs) = Inr xs" "as_list (PyInt n) = Inl TypeError"
  by (simp_all add: as_list_def)

lemma index_nat: "i < length xs \<Longrightarrow> index xs (int i) = Inr (xs ! i)"
  by (simp add: index_def)

lemma index_nat_Suc: "Suc i < length xs \<Longrightarrow> index xs (int i + 1) = Inr (xs ! Suc i)"
  using index_nat [of "Suc i" xs] by (simp add: add.commute)

subsection \<open>The array operations entry by entry\<close>

lemma length_tabulate_data:
  "length (concat (map (\<lambda>i. map (f i) [0..<c]) [0..<r])) = r * c"
  by (induction r) simp_all

lemma entry_tabulate:
  assumes "i < r" and "j < c"
  shows "entry (tabulate r c f) i j = f i j"
  using assms(1)
proof (induction r)
  case 0
  then show ?case by simp
next
  case (Suc r)
  let ?rows = "\<lambda>n. concat (map (\<lambda>i. map (f i) [0..<c]) [0..<n])"
  have split: "?rows (Suc r) = ?rows r @ map (f r) [0..<c]" by simp
  show ?case
  proof (cases "i < r")
    case True
    then have "Suc i \<le> r" by simp
    then have "Suc i * c \<le> r * c" by (rule mult_le_mono1)
    then have "i * c + j < r * c" using assms(2) by simp
    then have "?rows (Suc r) ! (i * c + j) = ?rows r ! (i * c + j)"
      unfolding split by (simp add: nth_append length_tabulate_data)
    also have "\<dots> = f i j" using Suc.IH [OF True] by (simp add: entry_def tabulate_def)
    finally show ?thesis by (simp add: entry_def tabulate_def)
  next
    case False
    with Suc.prems have i: "i = r" by simp
    have "?rows (Suc r) ! (r * c + j) = map (f r) [0..<c] ! j"
      unfolding split by (simp add: nth_append length_tabulate_data)
    also have "\<dots> = f r j" using assms(2) by simp
    finally show ?thesis by (simp add: entry_def tabulate_def i)
  qed
qed

lemma entry_mat_mul:
  assumes "i < nrows A" and "j < ncols B"
  shows "entry (mat_mul A B) i j = (\<Sum>k\<leftarrow>[0..<ncols A]. entry A i k * entry B k j)"
  unfolding mat_mul_def by (rule entry_tabulate [OF assms])

lemma entry_transpose_arr:
  assumes "i < ncols A" and "j < nrows A"
  shows "entry (transpose_arr A) i j = entry A j i"
  unfolding transpose_arr_def by (rule entry_tabulate [OF assms])

text \<open>Adding a column vector to a matrix of as many rows adds it to every column.\<close>

lemma entry_add_column:
  assumes "nrows b = nrows A" and "ncols b = 1" and "i < nrows A" and "j < ncols A"
  shows "entry (bc (+) A b) i j = entry A i j + entry b i 0"
proof -
  have "i < bdim (nrows A) (nrows b)" "j < bdim (ncols A) (ncols b)"
    using assms by simp_all
  then have "entry (bc (+) A b) i j =
      entry A (bidx (nrows A) i) (bidx (ncols A) j) + entry b (bidx (nrows b) i) (bidx (ncols b) j)"
    unfolding bc_def by (rule entry_tabulate)
  moreover have "bidx (nrows A) i = i" "bidx (ncols A) j = j" "bidx (nrows b) i = i"
    "bidx (ncols b) j = 0"
    using assms by (auto simp add: bidx_def)
  ultimately show ?thesis by simp
qed

text \<open>The weighted input of a layer, entry by entry: row \<open>i\<close> of \<open>W\<close> times column \<open>j\<close>
  of \<open>a\<close>, plus the \<open>i\<close>-th bias, in every column \<open>j\<close> of the batch.\<close>

lemma weighted_input_entry:
  assumes "nrows b = nrows W" and "ncols b = 1" and "i < nrows W" and "j < ncols a"
  shows "entry (bc (+) (mat_mul W a) b) i j =
    (\<Sum>k\<leftarrow>[0..<ncols W]. entry W i k * entry a k j) + entry b i 0"
proof -
  have "entry (bc (+) (mat_mul W a) b) i j = entry (mat_mul W a) i j + entry b i 0"
    using assms by (intro entry_add_column) simp_all
  also have "entry (mat_mul W a) i j = (\<Sum>k\<leftarrow>[0..<ncols W]. entry W i k * entry a k j)"
    using assms(3,4) by (rule entry_mat_mul)
  finally show ?thesis .
qed


subsection \<open>The initializer\<close>

lemma randn_ok:
  assumes "randn_shape_ok d0 d1" and "nat d0 * nat d1 \<le> free_entries gen"
  shows "\<exists>A gen'. randn d0 d1 gen = Inr (A, gen') \<and> nrows A = nat d0 \<and> ncols A = nat d1 \<and>
    free_entries gen' = free_entries gen - nat d0 * nat d1"
  using assms by (simp add: randn_def Let_def)

lemma randn_refused: "\<not> randn_shape_ok d0 d1 \<Longrightarrow> randn d0 d1 gen = Inl ValueError"
  by (simp add: randn_def)

lemma randn_cases:
  obtains "randn d0 d1 gen = Inl ValueError" | "randn d0 d1 gen = Inl MemoryError"
  | A gen' where "randn d0 d1 gen = Inr (A, gen')" "nrows A = nat d0" "ncols A = nat d1"
proof (cases "randn_shape_ok d0 d1")
  case False
  then show ?thesis using that(1) by (simp add: randn_def)
next
  case True
  show ?thesis
  proof (cases "nat d0 * nat d1 \<le> free_entries gen")
    case True
    with \<open>randn_shape_ok d0 d1\<close> show ?thesis using that(3) by (simp add: randn_def Let_def)
  next
    case False
    with \<open>randn_shape_ok d0 d1\<close> show ?thesis using that(2) by (simp add: randn_def Let_def)
  qed
qed

lemma randn_shape_ok_negative: "d0 < 0 \<or> d1 < 0 \<Longrightarrow> \<not> randn_shape_ok d0 d1"
  by (auto simp add: randn_shape_ok_def)

text \<open>Where the weight matrix of a layer is within the limits, so is its bias vector.\<close>

lemma randn_shape_ok_column:
  assumes "randn_shape_ok d1 d0"
  shows "randn_shape_ok d1 1"
proof -
  define a where "a = (if d1 = 0 then 1 else d1)"
  define b where "b = (if d0 = 0 then 1 else d0)"
  from assms have nn: "0 \<le> d1" "0 \<le> d0" "d1 \<le> max_intp" and big: "8 * a * b \<le> max_intp"
    by (simp_all add: randn_shape_ok_def a_def b_def)
  have a: "0 \<le> 8 * a" using nn(1) by (simp add: a_def)
  have b: "1 \<le> b" using nn(2) by (simp add: b_def)
  have "8 * a * 1 \<le> 8 * a * b" using a b by (rule mult_left_mono [rotated])
  with big have "8 * a \<le> max_intp" by simp
  then show ?thesis using nn by (simp add: randn_shape_ok_def a_def max_intp_def)
qed

text \<open>What the loop returns, when it returns.\<close>

lemma initialize_loop_Inr:
  "initialize_loop dims ls ws bs gen = Inr (ws', bs', gen') \<Longrightarrow>
   \<forall>l\<in>set ls. Suc l < length dims \<Longrightarrow>
   \<exists>Ws Bs. ws' = ws @ Ws \<and> bs' = bs @ Bs \<and>
     length Ws = length ls \<and> length Bs = length ls \<and>
     (\<forall>i<length ls. nrows (Ws ! i) = nat (dims ! Suc (ls ! i)) \<and>
                     ncols (Ws ! i) = nat (dims ! (ls ! i)) \<and>
                     nrows (Bs ! i) = nat (dims ! Suc (ls ! i)) \<and>
                     ncols (Bs ! i) = 1)"
proof (induction ls arbitrary: ws bs gen)
  case Nil
  then show ?case by simp
next
  case (Cons l ls)
  from Cons.prems(2) have l: "Suc l < length dims"
    and rest: "\<forall>l\<in>set ls. Suc l < length dims"
    by simp_all
  from Cons.prems(1) l obtain W gen1 where W: "randn (dims ! Suc l) (dims ! l) gen = Inr (W, gen1)"
    "nrows W = nat (dims ! Suc l)" "ncols W = nat (dims ! l)"
    by (cases rule: randn_cases [of "dims ! Suc l" "dims ! l" gen])
      (simp_all add: index_nat index_nat_Suc)
  from Cons.prems(1) l W(1) obtain b gen2 where b: "randn (dims ! Suc l) 1 gen1 = Inr (b, gen2)"
    "nrows b = nat (dims ! Suc l)" "ncols b = 1"
    by (cases rule: randn_cases [of "dims ! Suc l" 1 gen1])
      (simp_all add: index_nat index_nat_Suc)
  have "initialize_loop dims ls (ws @ [W]) (bs @ [b]) gen2 = Inr (ws', bs', gen')"
    using Cons.prems(1) l W(1) b(1) by (simp add: index_nat index_nat_Suc)
  from Cons.IH [OF this rest]
  obtain Ws Bs where IH: "ws' = (ws @ [W]) @ Ws" "bs' = (bs @ [b]) @ Bs"
    "length Ws = length ls" "length Bs = length ls"
    "\<forall>i<length ls. nrows (Ws ! i) = nat (dims ! Suc (ls ! i)) \<and>
                     ncols (Ws ! i) = nat (dims ! (ls ! i)) \<and>
                     nrows (Bs ! i) = nat (dims ! Suc (ls ! i)) \<and>
                     ncols (Bs ! i) = 1"
    by blast
  have shapes: "\<forall>i<length (l # ls). nrows ((W # Ws) ! i) = nat (dims ! Suc ((l # ls) ! i)) \<and>
                     ncols ((W # Ws) ! i) = nat (dims ! ((l # ls) ! i)) \<and>
                     nrows ((b # Bs) ! i) = nat (dims ! Suc ((l # ls) ! i)) \<and>
                     ncols ((b # Bs) ! i) = 1"
    using W(2,3) b(2,3) IH(5) by (simp add: All_less_Suc2)
  show ?case
  proof (intro exI conjI)
    show "ws' = ws @ (W # Ws)" using IH(1) by simp
    show "bs' = bs @ (b # Bs)" using IH(2) by simp
    show "length (W # Ws) = length (l # ls)" using IH(3) by simp
    show "length (b # Bs) = length (l # ls)" using IH(4) by simp
    show "\<forall>i<length (l # ls). nrows ((W # Ws) ! i) = nat (dims ! Suc ((l # ls) ! i)) \<and>
                     ncols ((W # Ws) ! i) = nat (dims ! ((l # ls) ! i)) \<and>
                     nrows ((b # Bs) ! i) = nat (dims ! Suc ((l # ls) ! i)) \<and>
                     ncols ((b # Bs) ! i) = 1"
      by (rule shapes)
  qed
qed

text \<open>The loop returns when every layer is within the limits of \<^verbatim>\<open>randn\<close> and the
  machine has the memory for all of them.\<close>

lemma initialize_loop_succeeds:
  "\<forall>l\<in>set ls. Suc l < length dims \<and> randn_shape_ok (dims ! Suc l) (dims ! l) \<Longrightarrow>
   sum_list (map (layer_entries dims) ls) \<le> free_entries gen \<Longrightarrow>
   \<exists>r. initialize_loop dims ls ws bs gen = Inr r"
proof (induction ls arbitrary: ws bs gen)
  case Nil
  then show ?case by simp
next
  case (Cons l ls)
  from Cons.prems(1) have l: "Suc l < length dims" "randn_shape_ok (dims ! Suc l) (dims ! l)"
    and rest: "\<forall>l\<in>set ls. Suc l < length dims \<and> randn_shape_ok (dims ! Suc l) (dims ! l)"
    by simp_all
  let ?w = "nat (dims ! Suc l) * nat (dims ! l)"
  let ?b = "nat (dims ! Suc l) * nat 1"
  from Cons.prems(2)
  have mem: "?w + ?b + sum_list (map (layer_entries dims) ls) \<le> free_entries gen"
    by (simp add: layer_entries_def [of dims l])
  then have "?w \<le> free_entries gen" by simp
  from randn_ok [OF l(2) this]
  obtain W gen1 where W: "randn (dims ! Suc l) (dims ! l) gen = Inr (W, gen1)"
    "free_entries gen1 = free_entries gen - ?w"
    by blast
  have "?b \<le> free_entries gen1" using mem W(2) by linarith
  from randn_ok [OF randn_shape_ok_column [OF l(2)] this]
  obtain b gen2 where b: "randn (dims ! Suc l) 1 gen1 = Inr (b, gen2)"
    "free_entries gen2 = free_entries gen1 - ?b"
    by blast
  have "sum_list (map (layer_entries dims) ls) \<le> free_entries gen2"
    using mem W(2) b(2) by linarith
  from Cons.IH [OF rest this, of "ws @ [W]" "bs @ [b]"]
  obtain r where "initialize_loop dims ls (ws @ [W]) (bs @ [b]) gen2 = Inr r" by blast
  then have "initialize_loop dims (l # ls) ws bs gen = Inr r"
    using l(1) W(1) b(1) by (simp add: index_nat index_nat_Suc)
  then show ?case by blast
qed

lemma initialize_loop_refused:
  "\<forall>l\<in>set ls. Suc l < length dims \<Longrightarrow>
   \<exists>l\<in>set ls. \<not> randn_shape_ok (dims ! Suc l) (dims ! l) \<Longrightarrow>
   initialize_loop dims ls ws bs gen = Inl ValueError \<or>
   initialize_loop dims ls ws bs gen = Inl MemoryError"
proof (induction ls arbitrary: ws bs gen)
  case Nil
  then show ?case by simp
next
  case (Cons l ls)
  from Cons.prems have l: "Suc l < length dims" by simp
  show ?case
  proof (cases "randn_shape_ok (dims ! Suc l) (dims ! l)")
    case False
    then show ?thesis using l by (simp add: index_nat index_nat_Suc randn_refused)
  next
    case True
    from Cons.prems True have ex: "\<exists>l\<in>set ls. \<not> randn_shape_ok (dims ! Suc l) (dims ! l)" by auto
    from Cons.prems have all: "\<forall>l\<in>set ls. Suc l < length dims" by simp
    show ?thesis
    proof (cases rule: randn_cases [of "dims ! Suc l" "dims ! l" gen])
      case 1
      then show ?thesis using l by (simp add: index_nat index_nat_Suc)
    next
      case 2
      then show ?thesis using l by (simp add: index_nat index_nat_Suc)
    next
      case W: (3 W gen1)
      show ?thesis
      proof (cases rule: randn_cases [of "dims ! Suc l" 1 gen1])
        case 1
        then show ?thesis using l W(1) by (simp add: index_nat index_nat_Suc)
      next
        case 2
        then show ?thesis using l W(1) by (simp add: index_nat index_nat_Suc)
      next
        case b: (3 b gen2)
        from Cons.IH [OF all ex, of "ws @ [W]" "bs @ [b]" gen2]
        show ?thesis using l W(1) b(1) by (simp add: index_nat index_nat_Suc)
      qed
    qed
  qed
qed

lemma nat_layers: "nat (int (length dimensions) - 1) = length dimensions - 1"
  by simp

lemma initialize_model_Inr:
  assumes "initialize_model dimensions gen = Inr (model, gen')"
  shows "\<exists>weights biases.
    model = [''weights'' \<mapsto> PyList weights, ''biases'' \<mapsto> PyList biases,
             ''nlayers'' \<mapsto> PyInt (int (length dimensions) - 1)] \<and>
    length weights = length dimensions - 1 \<and> length biases = length dimensions - 1 \<and>
    (\<forall>i<length dimensions - 1.
        nrows (weights ! i) = nat (dimensions ! Suc i) \<and>
        ncols (weights ! i) = nat (dimensions ! i) \<and>
        nrows (biases ! i) = nat (dimensions ! Suc i) \<and>
        ncols (biases ! i) = 1)"
proof -
  let ?ls = "[0..<length dimensions - 1]"
  from assms obtain weights biases where
    loop: "initialize_loop dimensions ?ls [] [] gen = Inr (weights, biases, gen')"
    and model: "model = [''weights'' \<mapsto> PyList weights, ''biases'' \<mapsto> PyList biases,
             ''nlayers'' \<mapsto> PyInt (int (length dimensions) - 1)]"
    by (auto simp add: initialize_model_def Let_def nat_layers split: sum.splits)
  have "\<forall>l\<in>set ?ls. Suc l < length dimensions" by auto
  from initialize_loop_Inr [OF loop this] model show ?thesis by auto
qed

lemma initialize_model_succeeds:
  assumes "\<forall>l. Suc l < length dimensions \<longrightarrow> randn_shape_ok (dimensions ! Suc l) (dimensions ! l)"
    and "model_entries dimensions \<le> free_entries gen"
  shows "\<exists>model gen'. initialize_model dimensions gen = Inr (model, gen')"
proof -
  let ?ls = "[0..<length dimensions - 1]"
  have "\<forall>l\<in>set ?ls. Suc l < length dimensions \<and>
      randn_shape_ok (dimensions ! Suc l) (dimensions ! l)"
    using assms(1) by auto
  moreover have "sum_list (map (layer_entries dimensions) ?ls) \<le> free_entries gen"
    using assms(2) by (simp add: model_entries_def)
  ultimately obtain r where "initialize_loop dimensions ?ls [] [] gen = Inr r"
    using initialize_loop_succeeds [of ?ls dimensions gen "[]" "[]"] by blast
  then show ?thesis
    by (cases r) (simp add: initialize_model_def Let_def nat_layers)
qed

lemma initialize_model_refused:
  assumes "Suc l < length dimensions"
    and "\<not> randn_shape_ok (dimensions ! Suc l) (dimensions ! l)"
  shows "initialize_model dimensions gen = Inl ValueError \<or>
    initialize_model dimensions gen = Inl MemoryError"
proof -
  let ?ls = "[0..<length dimensions - 1]"
  have "l \<in> set ?ls" using assms(1) by auto
  with assms(2) have "\<exists>l\<in>set ?ls. \<not> randn_shape_ok (dimensions ! Suc l) (dimensions ! l)"
    by blast
  moreover have "\<forall>l\<in>set ?ls. Suc l < length dimensions" by auto
  ultimately have "initialize_loop dimensions ?ls [] [] gen = Inl ValueError \<or>
      initialize_loop dimensions ?ls [] [] gen = Inl MemoryError"
    by (rule initialize_loop_refused [rotated])
  then show ?thesis by (auto simp add: initialize_model_def Let_def nat_layers)
qed

lemma initialize_model_neg:
  assumes "2 \<le> length dimensions" "\<exists>d\<in>set dimensions. d < 0"
  shows "initialize_model dimensions gen = Inl ValueError \<or>
    initialize_model dimensions gen = Inl MemoryError"
proof -
  from assms(2) obtain k where k: "k < length dimensions" "dimensions ! k < 0"
    by (auto simp add: in_set_conv_nth)
  show ?thesis
  proof (cases "Suc k < length dimensions")
    case True
    moreover have "\<not> randn_shape_ok (dimensions ! Suc k) (dimensions ! k)"
      using k(2) by (simp add: randn_shape_ok_negative)
    ultimately show ?thesis by (rule initialize_model_refused)
  next
    case False
    with k(1) assms(1) obtain j where j: "k = Suc j" "Suc j < length dimensions"
      by (cases k) auto
    have "\<not> randn_shape_ok (dimensions ! Suc j) (dimensions ! j)"
      using k(2) j(1) by (simp add: randn_shape_ok_negative)
    with j(2) show ?thesis by (rule initialize_model_refused)
  qed
qed

lemma initialize_model_short:
  assumes "length dimensions < 2"
  shows "initialize_model dimensions gen =
      Inr ([''weights'' \<mapsto> PyList [], ''biases'' \<mapsto> PyList [],
            ''nlayers'' \<mapsto> PyInt (int (length dimensions) - 1)], gen)"
proof -
  have "nat (int (length dimensions) - 1) = 0" using assms by simp
  then show ?thesis by (simp add: initialize_model_def Let_def)
qed

text \<open>Positive widths whose weight matrix has at most \<open>2\<^sup>6\<^sup>3 - 1\<close> bytes are within the
  limits of \<^verbatim>\<open>randn\<close>.\<close>

lemma randn_shape_ok_positive:
  fixes d0 d1 :: int
  assumes "0 < d0" and "0 < d1" and "8 * d1 * d0 \<le> 2 ^ 63 - 1"
  shows "randn_shape_ok d1 d0"
proof -
  have "d1 * 1 \<le> d1 * (8 * d0)" using assms(1,2) by (intro mult_left_mono) simp_all
  then have d1: "d1 \<le> 2 ^ 63 - 1" using assms(3) by (simp add: mult.assoc)
  have "d0 * 1 \<le> d0 * (8 * d1)" using assms(1,2) by (intro mult_left_mono) simp_all
  then have d0: "d0 \<le> 2 ^ 63 - 1" using assms(3) by (simp add: mult.commute mult.left_commute)
  show ?thesis using assms d0 d1 by (simp add: randn_shape_ok_def max_intp_def)
qed

text \<open>With the memory for every layer, the failure is the \<^verbatim>\<open>ValueError\<close>.\<close>

lemma initialize_loop_value_error:
  "\<forall>l\<in>set ls. Suc l < length dims \<Longrightarrow>
   \<exists>l\<in>set ls. \<not> randn_shape_ok (dims ! Suc l) (dims ! l) \<Longrightarrow>
   sum_list (map (layer_entries dims) ls) \<le> free_entries gen \<Longrightarrow>
   initialize_loop dims ls ws bs gen = Inl ValueError"
proof (induction ls arbitrary: ws bs gen)
  case Nil
  then show ?case by simp
next
  case (Cons l ls)
  from Cons.prems have l: "Suc l < length dims" by simp
  show ?case
  proof (cases "randn_shape_ok (dims ! Suc l) (dims ! l)")
    case False
    then show ?thesis using l by (simp add: index_nat index_nat_Suc randn_refused)
  next
    case True
    let ?w = "nat (dims ! Suc l) * nat (dims ! l)"
    let ?b = "nat (dims ! Suc l) * nat 1"
    from Cons.prems(3)
    have mem: "?w + ?b + sum_list (map (layer_entries dims) ls) \<le> free_entries gen"
      by (simp add: layer_entries_def [of dims l])
    then have "?w \<le> free_entries gen" by simp
    from randn_ok [OF True this]
    obtain W gen1 where W: "randn (dims ! Suc l) (dims ! l) gen = Inr (W, gen1)"
      "free_entries gen1 = free_entries gen - ?w"
      by blast
    have "?b \<le> free_entries gen1" using mem W(2) by linarith
    from randn_ok [OF randn_shape_ok_column [OF True] this]
    obtain b gen2 where b: "randn (dims ! Suc l) 1 gen1 = Inr (b, gen2)"
      "free_entries gen2 = free_entries gen1 - ?b"
      by blast
    have rest_mem: "sum_list (map (layer_entries dims) ls) \<le> free_entries gen2"
      using mem W(2) b(2) by linarith
    from Cons.prems True have ex: "\<exists>l\<in>set ls. \<not> randn_shape_ok (dims ! Suc l) (dims ! l)" by auto
    from Cons.prems have all: "\<forall>l\<in>set ls. Suc l < length dims" by simp
    from Cons.IH [OF all ex rest_mem, of "ws @ [W]" "bs @ [b]"]
    show ?thesis using l W(1) b(1) by (simp add: index_nat index_nat_Suc)
  qed
qed

lemma initialize_model_neg_value_error:
  assumes "2 \<le> length dimensions" "\<exists>d\<in>set dimensions. d < 0"
    and "model_entries dimensions \<le> free_entries gen"
  shows "initialize_model dimensions gen = Inl ValueError"
proof -
  let ?ls = "[0..<length dimensions - 1]"
  from assms(2) obtain k where k: "k < length dimensions" "dimensions ! k < 0"
    by (auto simp add: in_set_conv_nth)
  have "\<exists>l\<in>set ?ls. \<not> randn_shape_ok (dimensions ! Suc l) (dimensions ! l)"
  proof (cases "Suc k < length dimensions")
    case True
    then have "k \<in> set ?ls" by auto
    moreover have "\<not> randn_shape_ok (dimensions ! Suc k) (dimensions ! k)"
      using k(2) by (simp add: randn_shape_ok_negative)
    ultimately show ?thesis by blast
  next
    case False
    with k(1) assms(1) obtain j where j: "k = Suc j" "Suc j < length dimensions"
      by (cases k) auto
    then have "j \<in> set ?ls" by auto
    moreover have "\<not> randn_shape_ok (dimensions ! Suc j) (dimensions ! j)"
      using k(2) j(1) by (simp add: randn_shape_ok_negative)
    ultimately show ?thesis by blast
  qed
  moreover have "\<forall>l\<in>set ?ls. Suc l < length dimensions" by auto
  moreover have "sum_list (map (layer_entries dimensions) ?ls) \<le> free_entries gen"
    using assms(3) by (simp add: model_entries_def)
  ultimately have "initialize_loop dimensions ?ls [] [] gen = Inl ValueError"
    using initialize_loop_value_error [of ?ls dimensions gen "[]" "[]"] by blast
  then show ?thesis by (simp add: initialize_model_def Let_def nat_layers)
qed

text \<open>
  C7 (as the code has it). For a list \<open>dimensions\<close> of at least two entries, all
  positive, such that every weight matrix is within NumPy's size limit
  (\<open>8 \<cdot> dimensions[l] \<cdot> dimensions[l-1] \<le> 2\<^sup>6\<^sup>3 - 1\<close> for every layer \<open>l\<close> in \<open>1..L\<close>) and
  the machine has the memory for all weights and biases, \<open>initialize_model\<close> returns a
  model whose \<open>nlayers\<close> is \<open>len(dimensions) - 1\<close> and in which, for every layer \<open>l\<close> in
  \<open>1..L\<close>, the weight matrix \<open>weights[l-1]\<close> has shape \<open>(dimensions[l], dimensions[l-1])\<close>
  and the bias vector \<open>biases[l-1]\<close> has shape \<open>(dimensions[l], 1)\<close>.
\<close>

theorem initialize_model_shapes:
  assumes "2 \<le> length dimensions" and "\<forall>d\<in>set dimensions. 0 < d"
    and "\<forall>l. 1 \<le> l \<and> l < length dimensions \<longrightarrow>
           8 * dimensions ! l * dimensions ! (l - 1) \<le> 2 ^ 63 - 1"
    and "model_entries dimensions \<le> free_entries gen"
  shows "\<exists>weights biases gen'.
    initialize_model dimensions gen =
      Inr ([''weights'' \<mapsto> PyList weights, ''biases'' \<mapsto> PyList biases,
            ''nlayers'' \<mapsto> PyInt (int (length dimensions) - 1)], gen') \<and>
    length weights = length dimensions - 1 \<and> length biases = length dimensions - 1 \<and>
    (\<forall>l. 1 \<le> l \<and> l < length dimensions \<longrightarrow>
        int (nrows (weights ! (l - 1))) = dimensions ! l \<and>
        int (ncols (weights ! (l - 1))) = dimensions ! (l - 1) \<and>
        int (nrows (biases ! (l - 1))) = dimensions ! l \<and>
        ncols (biases ! (l - 1)) = 1)"
proof -
  have pos: "0 < dimensions ! k" if "k < length dimensions" for k
    using assms(2) that nth_mem by blast
  have ok: "\<forall>l. Suc l < length dimensions \<longrightarrow>
      randn_shape_ok (dimensions ! Suc l) (dimensions ! l)"
  proof (intro allI impI)
    fix l assume l: "Suc l < length dimensions"
    then have "l < length dimensions" by simp
    from assms(3) [rule_format, of "Suc l"] l
    have "8 * dimensions ! Suc l * dimensions ! l \<le> 2 ^ 63 - 1" by simp
    with pos [OF \<open>l < length dimensions\<close>] pos [OF l]
    show "randn_shape_ok (dimensions ! Suc l) (dimensions ! l)"
      by (rule randn_shape_ok_positive)
  qed
  from initialize_model_succeeds [OF ok assms(4)]
  obtain model gen' where ret: "initialize_model dimensions gen = Inr (model, gen')" by blast
  from initialize_model_Inr [OF ret]
  obtain weights biases where r:
    "model = [''weights'' \<mapsto> PyList weights, ''biases'' \<mapsto> PyList biases,
              ''nlayers'' \<mapsto> PyInt (int (length dimensions) - 1)]"
    "length weights = length dimensions - 1" "length biases = length dimensions - 1"
    "\<forall>i<length dimensions - 1.
        nrows (weights ! i) = nat (dimensions ! Suc i) \<and>
        ncols (weights ! i) = nat (dimensions ! i) \<and>
        nrows (biases ! i) = nat (dimensions ! Suc i) \<and>
        ncols (biases ! i) = 1"
    by blast
  have shapes: "int (nrows (weights ! (l - 1))) = dimensions ! l \<and>
        int (ncols (weights ! (l - 1))) = dimensions ! (l - 1) \<and>
        int (nrows (biases ! (l - 1))) = dimensions ! l \<and>
        ncols (biases ! (l - 1)) = 1" if l: "1 \<le> l \<and> l < length dimensions" for l
  proof -
    from l have i: "l - 1 < length dimensions - 1" "Suc (l - 1) = l" by linarith+
    have "l < length dimensions" "l - 1 < length dimensions" using l by arith+
    then have "0 \<le> dimensions ! l" "0 \<le> dimensions ! (l - 1)"
      using pos less_imp_le by blast+
    with r(4) i show ?thesis by (metis int_nat_eq)
  qed
  show ?thesis using ret r(1-3) shapes by blast
qed

theorem initialize_model_shapes_witness:
  "\<exists>weights biases gen'.
     initialize_model [2, 3, 1] count_gen =
       Inr ([''weights'' \<mapsto> PyList weights, ''biases'' \<mapsto> PyList biases,
             ''nlayers'' \<mapsto> PyInt 2], gen') \<and>
     length weights = 2 \<and> length biases = 2 \<and>
     nrows (weights ! 0) = 3 \<and> ncols (weights ! 0) = 2 \<and>
     nrows (biases ! 0) = 3 \<and> ncols (biases ! 0) = 1 \<and>
     nrows (weights ! 1) = 1 \<and> ncols (weights ! 1) = 3 \<and>
     nrows (biases ! 1) = 1 \<and> ncols (biases ! 1) = 1"
proof -
  have len: "2 \<le> length [2, 3, 1 :: int]" and pos: "\<forall>d\<in>set [2, 3, 1 :: int]. 0 < d"
    by simp_all
  have fits: "\<forall>l. 1 \<le> l \<and> l < length [2, 3, 1 :: int] \<longrightarrow>
      8 * [2, 3, 1 :: int] ! l * [2, 3, 1] ! (l - 1) \<le> 2 ^ 63 - 1"
  proof (intro allI impI)
    fix l :: nat assume "1 \<le> l \<and> l < length [2, 3, 1 :: int]"
    then have "l = 1 \<or> l = 2" by auto
    then show "8 * [2, 3, 1 :: int] ! l * [2, 3, 1] ! (l - 1) \<le> 2 ^ 63 - 1" by auto
  qed
  have mem: "model_entries [2, 3, 1] \<le> free_entries count_gen"
    by (simp add: model_entries_def layer_entries_def count_gen_def eval_nat_numeral)
  from initialize_model_shapes [OF len pos fits mem]
  obtain weights biases gen' where r:
    "initialize_model [2, 3, 1] count_gen =
      Inr ([''weights'' \<mapsto> PyList weights, ''biases'' \<mapsto> PyList biases,
            ''nlayers'' \<mapsto> PyInt 2], gen')"
    "length weights = 2" "length biases = 2"
    "\<forall>l. 1 \<le> l \<and> l < 3 \<longrightarrow>
        int (nrows (weights ! (l - 1))) = [2, 3, 1] ! l \<and>
        int (ncols (weights ! (l - 1))) = [2, 3, 1] ! (l - 1) \<and>
        int (nrows (biases ! (l - 1))) = [2, 3, 1] ! l \<and>
        ncols (biases ! (l - 1)) = 1"
    by auto
  from r(4) [rule_format, of 1] r(4) [rule_format, of 2]
  have "nrows (weights ! 0) = 3 \<and> ncols (weights ! 0) = 2 \<and>
     nrows (biases ! 0) = 3 \<and> ncols (biases ! 0) = 1 \<and>
     nrows (weights ! 1) = 1 \<and> ncols (weights ! 1) = 3 \<and>
     nrows (biases ! 1) = 1 \<and> ncols (biases ! 1) = 1"
    by simp
  with r(1-3) show ?thesis by blast
qed

text \<open>Without the size limit the statement fails: two positive entries, and
  \<^verbatim>\<open>randn\<close> refuses the weight matrix of \<open>2\<^sup>6\<^sup>2\<close> rows, whatever memory there is.\<close>

theorem initialize_model_too_big_counterexample:
  "2 \<le> length [1, 2 ^ 62 :: int] \<and> 0 < (1 :: int) \<and> 0 < (2 ^ 62 :: int) \<and>
   initialize_model [1, 2 ^ 62] count_gen = Inl ValueError"
  by (simp add: initialize_model_def Let_def index_def randn_def randn_shape_ok_def max_intp_def)

text \<open>
  C6 (as the code has it). \<open>initialize_model\<close> checks nothing itself; what fails is
  \<^verbatim>\<open>np.random.randn\<close>. For a list of at least two entries with a negative entry the
  call fails: \<^verbatim>\<open>randn\<close> raises \<^verbatim>\<open>ValueError\<close>, unless the memory runs out on an earlier
  array. A list of fewer than two entries gives a model with no layers, and so does not
  fail; and a list whose entries are all within the limits of \<^verbatim>\<open>randn\<close>, zeros
  included, gives a model when the machine has the memory for it.
\<close>

theorem initialize_model_no_validation:
  "(2 \<le> length dimensions \<and> (\<exists>d\<in>set dimensions. d < 0) \<longrightarrow>
      initialize_model dimensions gen = Inl ValueError \<or>
      initialize_model dimensions gen = Inl MemoryError) \<and>
   (2 \<le> length dimensions \<and> (\<exists>d\<in>set dimensions. d < 0) \<and>
    model_entries dimensions \<le> free_entries gen \<longrightarrow>
      initialize_model dimensions gen = Inl ValueError) \<and>
   (length dimensions < 2 \<longrightarrow>
      initialize_model dimensions gen =
        Inr ([''weights'' \<mapsto> PyList [], ''biases'' \<mapsto> PyList [],
              ''nlayers'' \<mapsto> PyInt (int (length dimensions) - 1)], gen)) \<and>
   ((\<forall>l. Suc l < length dimensions \<longrightarrow>
        randn_shape_ok (dimensions ! Suc l) (dimensions ! l)) \<and>
    model_entries dimensions \<le> free_entries gen \<longrightarrow>
      (\<exists>model gen'. initialize_model dimensions gen = Inr (model, gen')))"
proof (intro conjI impI)
  assume "2 \<le> length dimensions \<and> (\<exists>d\<in>set dimensions. d < 0)"
  then show "initialize_model dimensions gen = Inl ValueError \<or>
      initialize_model dimensions gen = Inl MemoryError"
    by (simp add: initialize_model_neg)
next
  assume a: "2 \<le> length dimensions \<and> (\<exists>d\<in>set dimensions. d < 0) \<and>
    model_entries dimensions \<le> free_entries gen"
  then show "initialize_model dimensions gen = Inl ValueError"
    by (simp add: initialize_model_neg_value_error)
next
  assume "length dimensions < 2"
  then show "initialize_model dimensions gen =
        Inr ([''weights'' \<mapsto> PyList [], ''biases'' \<mapsto> PyList [],
              ''nlayers'' \<mapsto> PyInt (int (length dimensions) - 1)], gen)"
    by (rule initialize_model_short)
next
  assume "(\<forall>l. Suc l < length dimensions \<longrightarrow>
        randn_shape_ok (dimensions ! Suc l) (dimensions ! l)) \<and>
    model_entries dimensions \<le> free_entries gen"
  then show "\<exists>model gen'. initialize_model dimensions gen = Inr (model, gen')"
    by (simp add: initialize_model_succeeds)
qed

theorem initialize_model_no_validation_witness:
  "initialize_model [3, - 1] count_gen = Inl ValueError \<and>
   initialize_model [7] count_gen =
     Inr ([''weights'' \<mapsto> PyList [], ''biases'' \<mapsto> PyList [], ''nlayers'' \<mapsto> PyInt 0], count_gen) \<and>
   (\<exists>model gen'. initialize_model [3, 0] count_gen = Inr (model, gen'))"
proof -
  have ok: "\<forall>l. Suc l < length [3, 0 :: int] \<longrightarrow>
      randn_shape_ok ([3, 0] ! Suc l) ([3, 0] ! l)"
    by (simp add: randn_shape_ok_def max_intp_def)
  have mem: "model_entries [3, - 1] \<le> free_entries count_gen"
    "model_entries [3, 0] \<le> free_entries count_gen"
    by (simp_all add: model_entries_def layer_entries_def count_gen_def)
  from initialize_model_no_validation [of "[3, - 1]" count_gen] mem(1)
  have "initialize_model [3, - 1] count_gen = Inl ValueError" by simp
  moreover from initialize_model_no_validation [of "[7]" count_gen]
  have "initialize_model [7] count_gen =
     Inr ([''weights'' \<mapsto> PyList [], ''biases'' \<mapsto> PyList [], ''nlayers'' \<mapsto> PyInt 0], count_gen)"
    by simp
  moreover from initialize_model_no_validation [of "[3, 0]" count_gen] ok mem(2)
  have "\<exists>model gen'. initialize_model [3, 0] count_gen = Inr (model, gen')" by blast
  ultimately show ?thesis by blast
qed

text \<open>The claim as the specification words it fails: a list of one entry, and a list
  with a zero entry, both give a model.\<close>

theorem initialize_model_no_check_counterexample:
  "initialize_model [5] count_gen =
     Inr ([''weights'' \<mapsto> PyList [], ''biases'' \<mapsto> PyList [], ''nlayers'' \<mapsto> PyInt 0], count_gen) \<and>
   fst (projr (initialize_model [3, 0] count_gen)) =
     [''weights'' \<mapsto> PyList [NDArray 0 3 []], ''biases'' \<mapsto> PyList [NDArray 0 1 []],
      ''nlayers'' \<mapsto> PyInt 1]"
  by (simp add: initialize_model_def Let_def index_def randn_def randn_shape_ok_def max_intp_def
      tabulate_def count_gen_def)

subsection \<open>The functions on a concrete model\<close>

lemma entry_NDArray: "entry (NDArray r c xs) i j = xs ! (i * c + j)"
  by (simp add: entry_def)

lemmas array_defs =
  matmul_def mat_mul_def broadcast_def bc_def tabulate_def entry_NDArray map_arr_def
  bidx_def bdim_def compat_def ones_def transpose_arr_def

lemma small_model_initialized:
  "initialize_model [2, 1] count_gen = Inr (small_model, \<lparr>draws = \<lambda>k. real (k + 1 + 2), free_entries = 997\<rparr>)"
  by (simp add: initialize_model_def Let_def index_def randn_def randn_shape_ok_def max_intp_def
      tabulate_def small_model_def count_gen_def eval_nat_numeral)

lemma forward_small:
  "forward small_x small_model = Inr (NDArray 1 1 [1 / 2], small_forward)"
  by (simp add: forward_def small_forward_def small_model_def small_x_def getitem_def
      array_defs g_def eval_nat_numeral)

lemma backward_small:
  "backward small_y small_forward = Inr small_backward"
  by (simp add: backward_def small_backward_def small_forward_def small_model_def small_x_def
      small_y_def getitem_def index_def loss_prime_def grads_def array_defs g_prime_def g_def
      slice_back_def Let_def eval_nat_numeral)

lemma small_backward_cleared:
  "small_backward(''activations'' := None, ''w_inputs'' := None,
                  ''grad_weights'' := None, ''grad_biases'' := None) = small_model"
  by (rule ext) (simp add: small_backward_def small_forward_def small_model_def)

subsection \<open>The updater\<close>

lemma update_del_keys:
  assumes "model ''activations'' \<noteq> None" "model ''w_inputs'' \<noteq> None"
    "model ''grad_weights'' \<noteq> None" "model ''grad_biases'' \<noteq> None"
  shows "del_keys [''activations'', ''w_inputs'', ''grad_weights'', ''grad_biases''] model =
    Inr (model(''activations'' := None, ''w_inputs'' := None,
               ''grad_weights'' := None, ''grad_biases'' := None))"
  using assms by simp

text \<open>
  C2. For a model that holds the four keys \<open>activations\<close>, \<open>w_inputs\<close>,
  \<open>grad_weights\<close> and \<open>grad_biases\<close> and any learning rate, \<open>update\<close> deletes the four
  keys and then raises \<^verbatim>\<open>KeyError\<close> at the first key it cannot read: \<open>grad_weights\<close>
  when the model has weights and biases. The dictionary it leaves behind has lost the
  four keys and nothing else; its weights and biases are those it had.
\<close>

theorem update_raises_key_error:
  assumes "model ''activations'' \<noteq> None" and "model ''w_inputs'' \<noteq> None"
    and "model ''grad_weights'' \<noteq> None" and "model ''grad_biases'' \<noteq> None"
  shows "\<exists>model'.
    update eta model =
      Inl (KeyError (if model ''weights'' = None then ''weights''
                     else if model ''biases'' = None then ''biases'' else ''grad_weights''),
           model') \<and>
    model' = model(''activations'' := None, ''w_inputs'' := None,
                   ''grad_weights'' := None, ''grad_biases'' := None) \<and>
    model' ''weights'' = model ''weights'' \<and> model' ''biases'' = model ''biases''"
  unfolding update_def update_del_keys [OF assms]
  by (simp add: getitem_def split: option.splits)

theorem update_raises_key_error_witness:
  "backward small_y small_forward = Inr small_backward \<and>
   update (1 / 2) small_backward = Inl (KeyError ''grad_weights'', small_model)"
proof -
  have keys: "small_backward ''activations'' \<noteq> None" "small_backward ''w_inputs'' \<noteq> None"
    "small_backward ''grad_weights'' \<noteq> None" "small_backward ''grad_biases'' \<noteq> None"
    by (simp_all add: small_backward_def small_forward_def)
  have present: "small_backward ''weights'' \<noteq> None" "small_backward ''biases'' \<noteq> None"
    by (simp_all add: small_backward_def small_forward_def small_model_def)
  from update_raises_key_error [OF keys, of "1 / 2"] present
  have "update (1 / 2) small_backward =
      Inl (KeyError ''grad_weights'',
           small_backward(''activations'' := None, ''w_inputs'' := None,
                          ''grad_weights'' := None, ''grad_biases'' := None))"
    by auto
  then show ?thesis by (simp add: small_backward_cleared backward_small)
qed

text \<open>
  C1 (the code at a model that \<open>backward\<close> returned). \<open>update\<close> does not return the
  model with \<open>W - eta * dW\<close> and \<open>b - eta * db\<close>: the gradients are deleted before they
  are read, so the call raises \<^verbatim>\<open>KeyError\<close> and the weights stay as they were.
\<close>

theorem update_after_backward_raises:
  "forward small_x small_model = Inr (NDArray 1 1 [1 / 2], small_forward) \<and>
   backward small_y small_forward = Inr small_backward \<and>
   small_backward ''grad_weights'' = Some (PyList [NDArray 1 2 [- 3 / 8, 1 / 4]]) \<and>
   update (1 / 2) small_backward = Inl (KeyError ''grad_weights'', small_model)"
proof -
  have "update (1 / 2) small_backward = Inl (KeyError ''grad_weights'', small_model)"
    unfolding update_def
    by (simp add: getitem_def small_backward_cleared)
      (simp add: small_backward_def small_forward_def small_model_def)
  then show ?thesis
    by (simp add: forward_small backward_small) (simp add: small_backward_def)
qed

text \<open>
  C3 (the code on one epoch with learning rate 0). \<open>forward\<close>, \<open>backward\<close> and then
  \<open>update\<close> return no model: \<open>update\<close> raises \<^verbatim>\<open>KeyError\<close>.
\<close>

theorem epoch_zero_rate_raises:
  "epoch 0 small_x small_y small_model = Inl (KeyError ''grad_weights'', small_model)"
proof -
  have "update 0 small_backward = Inl (KeyError ''grad_weights'', small_model)"
    unfolding update_def
    by (simp add: getitem_def small_backward_cleared)
      (simp add: small_backward_def small_forward_def small_model_def)
  then show ?thesis
    by (simp add: epoch_def forward_small backward_small)
qed

subsection \<open>The backward pass without a forward pass\<close>

lemma initialize_model_keys:
  assumes "initialize_model dimensions gen = Inr (model, gen')"
  shows "\<exists>weights biases. model =
    [''weights'' \<mapsto> PyList weights, ''biases'' \<mapsto> PyList biases,
     ''nlayers'' \<mapsto> PyInt (int (length dimensions) - 1)]"
  using assms
  by (auto simp add: initialize_model_def Let_def bind_ok_def split: sum.splits)

text \<open>
  C8. On a freshly initialized model (no \<open>forward\<close> call has stored \<open>activations\<close> and
  \<open>w_inputs\<close>), \<open>backward\<close> fails for every target \<open>y\<close>: the lookup of the missing key
  \<open>activations\<close> raises \<^verbatim>\<open>KeyError\<close>, the code's signal of the violated precondition.
\<close>

theorem backward_fresh_model_raises:
  assumes "initialize_model dimensions gen = Inr (model, gen')"
  shows "backward y model = Inl (KeyError ''activations'')"
proof -
  from initialize_model_keys [OF assms] have "model ''activations'' = None" by auto
  then show ?thesis by (simp add: backward_def getitem_def)
qed

theorem backward_fresh_model_raises_witness:
  "initialize_model [2, 1] count_gen = Inr (small_model, \<lparr>draws = \<lambda>k. real (k + 1 + 2), free_entries = 997\<rparr>) \<and>
   backward small_y small_model = Inl (KeyError ''activations'')"
  using backward_fresh_model_raises [OF small_model_initialized, of small_y]
  by (simp add: small_model_initialized)

subsection \<open>Well-shaped networks and the forward pass\<close>

lemma net_shaped_iff:
  "net_shaped ds ws bs =
     (length ds = Suc (length ws) \<and> length bs = length ws \<and>
      (\<forall>l<length ws. nrows (ws ! l) = ds ! Suc l \<and> ncols (ws ! l) = ds ! l \<and>
                       nrows (bs ! l) = ds ! Suc l \<and> ncols (bs ! l) = 1))"
proof (induction ds ws bs rule: net_shaped.induct)
  case (1 d0 d1 ds W ws b bs)
  then show ?case by (auto simp add: All_less_Suc2)
qed auto

lemma net_shaped_length: "net_shaped ds ws bs \<Longrightarrow> length ds = Suc (length ws) \<and> length bs = length ws"
  by (simp add: net_shaped_iff)

lemma net_shaped_Cons:
  assumes "net_shaped (d0 # ds) (W # ws) bs"
  obtains d1 ds' b bs' where "ds = d1 # ds'" "bs = b # bs'" "nrows W = d1" "ncols W = d0"
    "nrows b = d1" "ncols b = 1" "net_shaped (d1 # ds') ws bs'"
  using assms by (cases ds; cases bs) simp_all

lemma net_shaped_Nil:
  assumes "net_shaped (d0 # ds) [] bs"
  shows "ds = [] \<and> bs = []"
  using assms by (cases ds; cases bs) simp_all

lemma initialize_model_net_shaped:
  assumes "initialize_model dimensions gen = Inr (model, gen')" and "dimensions \<noteq> []"
  shows "\<exists>weights biases.
    model = [''weights'' \<mapsto> PyList weights, ''biases'' \<mapsto> PyList biases,
             ''nlayers'' \<mapsto> PyInt (int (length dimensions) - 1)] \<and>
    net_shaped (map nat dimensions) weights biases"
proof -
  from initialize_model_Inr [OF assms(1)]
  obtain weights biases where r:
    "model = [''weights'' \<mapsto> PyList weights, ''biases'' \<mapsto> PyList biases,
              ''nlayers'' \<mapsto> PyInt (int (length dimensions) - 1)]"
    "length weights = length dimensions - 1" "length biases = length dimensions - 1"
    "\<forall>i<length dimensions - 1.
        nrows (weights ! i) = nat (dimensions ! Suc i) \<and>
        ncols (weights ! i) = nat (dimensions ! i) \<and>
        nrows (biases ! i) = nat (dimensions ! Suc i) \<and>
        ncols (biases ! i) = 1"
    by blast
  have "0 < length dimensions" using assms(2) by simp
  then have "net_shaped (map nat dimensions) weights biases"
    unfolding net_shaped_iff using r(2-4) by auto
  with r(1) show ?thesis by blast
qed

lemma forward_loop_shaped:
  assumes "net_shaped (d0 # ds) ws bs" and "nrows a = d0"
  shows "\<exists>As Zs.
    forward_loop (zip ws bs) a acts zs = Inr (last (a # As), acts @ As, zs @ Zs) \<and>
    length As = length ws \<and> length Zs = length ws \<and>
    (\<forall>l<length ws.
        Zs ! l = bc (+) (mat_mul (ws ! l) ((a # As) ! l)) (bs ! l) \<and>
        As ! l = g (Zs ! l) \<and>
        nrows (Zs ! l) = ds ! l \<and> ncols (Zs ! l) = ncols a)"
  using assms
proof (induction ws arbitrary: d0 ds bs a acts zs)
  case Nil
  then show ?case using net_shaped_Nil [OF Nil.prems(1)] by simp
next
  case (Cons W ws)
  from Cons.prems(1) obtain d1 ds' b bs' where s:
    "ds = d1 # ds'" "bs = b # bs'" "nrows W = d1" "ncols W = d0"
    "nrows b = d1" "ncols b = 1" "net_shaped (d1 # ds') ws bs'"
    by (rule net_shaped_Cons)
  define z where "z = bc (+) (mat_mul W a) b"
  have z_shape: "nrows z = d1" "ncols z = ncols a"
    using s(3,5,6) by (simp_all add: z_def)
  have step: "forward_loop (zip (W # ws) bs) a acts zs =
      forward_loop (zip ws bs') (g z) (acts @ [g z]) (zs @ [z])"
    using s(2-6) Cons.prems(2) by (simp add: matmul_def broadcast_def z_def)
  have "nrows (g z) = d1" using z_shape by simp
  from Cons.IH [OF s(7) this, of "acts @ [g z]" "zs @ [z]"]
  obtain As Zs where IH:
    "forward_loop (zip ws bs') (g z) (acts @ [g z]) (zs @ [z]) =
       Inr (last (g z # As), (acts @ [g z]) @ As, (zs @ [z]) @ Zs)"
    "length As = length ws" "length Zs = length ws"
    "\<forall>l<length ws.
        Zs ! l = bc (+) (mat_mul (ws ! l) ((g z # As) ! l)) (bs' ! l) \<and>
        As ! l = g (Zs ! l) \<and>
        nrows (Zs ! l) = ds' ! l \<and> ncols (Zs ! l) = ncols (g z)"
    by blast
  have res: "forward_loop (zip (W # ws) bs) a acts zs =
      Inr (last (a # g z # As), acts @ (g z # As), zs @ (z # Zs))"
    using step IH(1) by simp
  have rec: "(z # Zs) ! l = bc (+) (mat_mul ((W # ws) ! l) ((a # g z # As) ! l)) (bs ! l) \<and>
        (g z # As) ! l = g ((z # Zs) ! l) \<and>
        nrows ((z # Zs) ! l) = ds ! l \<and> ncols ((z # Zs) ! l) = ncols a"
    if "l < length (W # ws)" for l
  proof (cases l)
    case 0
    then show ?thesis using z_shape s(1,2) by (simp add: z_def)
  next
    case (Suc k)
    with that have "k < length ws" by simp
    from IH(4) [rule_format, OF this] show ?thesis using Suc s(1,2) z_shape(2) by auto
  qed
  show ?case
  proof (intro exI conjI)
    show "forward_loop (zip (W # ws) bs) a acts zs =
        Inr (last (a # g z # As), acts @ (g z # As), zs @ (z # Zs))"
      by (rule res)
    show "length (g z # As) = length (W # ws)" using IH(2) by simp
    show "length (z # Zs) = length (W # ws)" using IH(3) by simp
    show "\<forall>l<length (W # ws).
        (z # Zs) ! l = bc (+) (mat_mul ((W # ws) ! l) ((a # g z # As) ! l)) (bs ! l) \<and>
        (g z # As) ! l = g ((z # Zs) ! l) \<and>
        nrows ((z # Zs) ! l) = ds ! l \<and> ncols ((z # Zs) ! l) = ncols a"
      by (intro allI impI) (rule rec)
  qed
qed

lemma initialize_model_nonneg:
  assumes "initialize_model dimensions gen = Inr (model, gen')" and "2 \<le> length dimensions"
  shows "\<forall>d\<in>set dimensions. 0 \<le> d"
proof (rule ccontr)
  assume "\<not> ?thesis"
  then have "\<exists>d\<in>set dimensions. d < 0" by (auto simp add: not_le)
  from initialize_model_neg [OF assms(2) this, of gen] assms(1) show False by auto
qed

lemma forward_shaped:
  assumes w: "model ''weights'' = Some (PyList ws)" and b: "model ''biases'' = Some (PyList bs)"
    and shaped: "net_shaped (d0 # ds) ws bs" and x: "nrows x = d0"
  shows "\<exists>As Zs.
    forward x model =
      Inr (last (x # As),
           model(''activations'' \<mapsto> PyList (x # As), ''w_inputs'' \<mapsto> PyList Zs)) \<and>
    length As = length ws \<and> length Zs = length ws \<and>
    (\<forall>l<length ws.
        Zs ! l = bc (+) (mat_mul (ws ! l) ((x # As) ! l)) (bs ! l) \<and>
        As ! l = g (Zs ! l) \<and>
        nrows (Zs ! l) = ds ! l \<and> ncols (Zs ! l) = ncols x)"
proof -
  from forward_loop_shaped [OF shaped x, of "[x]" "[]"]
  obtain As Zs where r:
    "forward_loop (zip ws bs) x [x] [] = Inr (last (x # As), [x] @ As, [] @ Zs)"
    "length As = length ws" "length Zs = length ws"
    "\<forall>l<length ws.
        Zs ! l = bc (+) (mat_mul (ws ! l) ((x # As) ! l)) (bs ! l) \<and>
        As ! l = g (Zs ! l) \<and>
        nrows (Zs ! l) = ds ! l \<and> ncols (Zs ! l) = ncols x"
    by blast
  have "forward x model =
      Inr (last (x # As),
           model(''activations'' \<mapsto> PyList (x # As), ''w_inputs'' \<mapsto> PyList Zs))"
    using r(1) w b by (simp add: forward_def getitem_def)
  with r(2-4) show ?thesis by blast
qed



text \<open>
  C9 (as the code has it). For an initialized model of at least one layer
  (\<open>len(dimensions) \<ge> 2\<close>) and an input \<open>x\<close> whose row count is not \<open>dimensions[0]\<close>,
  \<open>forward\<close> returns nothing: the first matrix product \<open>W @ a\<close> raises \<^verbatim>\<open>ValueError\<close>,
  NumPy's shape mismatch.
\<close>

theorem forward_shape_mismatch:
  assumes init: "initialize_model dimensions gen = Inr (model, gen')"
    and layers: "2 \<le> length dimensions"
    and rows: "int (nrows x) \<noteq> dimensions ! 0"
  shows "forward x model = Inl ValueError"
proof -
  from layers obtain d0 d1 ds where dims: "dimensions = d0 # d1 # ds"
    by (cases dimensions; cases "tl dimensions") auto
  from initialize_model_net_shaped [OF init] dims
  obtain weights biases where m:
    "model = [''weights'' \<mapsto> PyList weights, ''biases'' \<mapsto> PyList biases,
              ''nlayers'' \<mapsto> PyInt (int (length dimensions) - 1)]"
    "net_shaped (nat d0 # nat d1 # map nat ds) weights biases"
    by auto
  from m(2) obtain W ws b bs where wb: "weights = W # ws" "biases = b # bs" "ncols W = nat d0"
    by (cases weights; cases biases) auto
  have "0 \<le> d0" using initialize_model_nonneg [OF init layers] dims by simp
  with rows dims have "ncols W \<noteq> nrows x" using wb(3) by auto
  then show ?thesis
    by (simp add: forward_def getitem_def m(1) wb(1,2) matmul_def)
qed

theorem forward_shape_mismatch_witness:
  "initialize_model [2, 1] count_gen = Inr (small_model, \<lparr>draws = \<lambda>k. real (k + 1 + 2), free_entries = 997\<rparr>) \<and>
   nrows tall_x = 3 \<and> forward tall_x small_model = Inl ValueError"
proof -
  have layers: "2 \<le> length [2, 1 :: int]" by simp
  have rows: "int (nrows tall_x) \<noteq> [2, 1] ! 0" by (simp add: tall_x_def)
  from forward_shape_mismatch [OF small_model_initialized layers rows]
  show ?thesis by (simp add: small_model_initialized tall_x_def)
qed

text \<open>Without a layer the statement fails: \<^verbatim>\<open>initialize_model([5])\<close> gives a model of
  no layers, and on it \<open>forward\<close> returns an input of three rows as it is.\<close>

theorem forward_zero_layer_counterexample:
  "initialize_model [5] count_gen = Inr (empty_model, count_gen) \<and>
   int (nrows tall_x) \<noteq> [5] ! 0 \<and>
   forward tall_x empty_model =
     Inr (tall_x, empty_model(''activations'' \<mapsto> PyList [tall_x], ''w_inputs'' \<mapsto> PyList []))"
  by (simp add: initialize_model_def Let_def empty_model_def tall_x_def forward_def getitem_def)

subsection \<open>Negative indices and reversed slices\<close>

lemma index_last: "xs \<noteq> [] \<Longrightarrow> index xs (- 1) = Inr (last xs)"
proof -
  assume ne: "xs \<noteq> []"
  then have "nat (int (length xs) + - 1) = length xs - 1" by simp
  moreover have "Suc 0 \<le> length xs" using ne by (cases xs) simp_all
  ultimately show ?thesis using ne by (simp add: index_def last_conv_nth)
qed

lemma index_before_last:
  "2 \<le> length xs \<Longrightarrow> index xs (- 2) = Inr (xs ! (length xs - 2))"
proof -
  assume len: "2 \<le> length xs"
  then have "nat (int (length xs) + - 2) = length xs - 2" by simp
  then show ?thesis using len by (simp add: index_def)
qed

lemma slice_back_all: "slice_back xs None None = rev xs"
  by (simp add: slice_back_def Let_def)

lemma slice_back_tail:
  "slice_back xs (Some (- 1)) (Some 0) = rev (drop 1 xs)"
  by (cases "xs = []") (simp_all add: slice_back_def Let_def)

lemma slice_back_from_2:
  "slice_back xs (Some (- 2)) None = rev (take (length xs - 1) xs)"
proof -
  have "nat (int (length xs) - 1) = length xs - 1" by simp
  then show ?thesis
    by (cases "int (length xs) < 2") (auto simp add: slice_back_def Let_def)
qed

lemma slice_back_from_3:
  "slice_back xs (Some (- 3)) None = rev (take (length xs - 2) xs)"
proof -
  have "nat (int (length xs) - 2) = length xs - 2" by simp
  then show ?thesis
    by (cases "int (length xs) < 3") (auto simp add: slice_back_def Let_def)
qed

text \<open>The three reversed slices that \<open>backward\<close> zips, by index.\<close>

lemma loop_iterates_nth:
  assumes "length weights = L" and "length zs = L" and "length acts = Suc L"
  shows "zip (slice_back weights (Some (- 1)) (Some 0))
           (zip (slice_back zs (Some (- 2)) None) (slice_back acts (Some (- 3)) None)) =
         map (\<lambda>j. (weights ! (L - Suc j), zs ! (L - Suc (Suc j)), acts ! (L - Suc (Suc j))))
           [0..<L - 1]"
proof (rule nth_equalityI)
  show len: "length (zip (slice_back weights (Some (- 1)) (Some 0))
           (zip (slice_back zs (Some (- 2)) None) (slice_back acts (Some (- 3)) None))) =
         length (map (\<lambda>j. (weights ! (L - Suc j), zs ! (L - Suc (Suc j)), acts ! (L - Suc (Suc j))))
           [0..<L - 1])"
    using assms by (simp add: slice_back_tail slice_back_from_2 slice_back_from_3)
  fix j
  assume "j < length (zip (slice_back weights (Some (- 1)) (Some 0))
           (zip (slice_back zs (Some (- 2)) None) (slice_back acts (Some (- 3)) None)))"
  with len have j: "j < L - 1" by (simp only: length_map length_upt minus_nat.diff_0)
  have w: "rev (drop 1 weights) ! j = weights ! (L - Suc j)"
  proof -
    have "rev (drop 1 weights) ! j = drop 1 weights ! (L - 1 - Suc j)"
      using j assms(1) by (simp add: rev_nth)
    also have "\<dots> = weights ! (1 + (L - 1 - Suc j))"
      using j assms(1) by (intro nth_drop) simp
    also have "1 + (L - 1 - Suc j) = L - Suc j" using j by simp
    finally show ?thesis .
  qed
  have z: "rev (take (L - 1) zs) ! j = zs ! (L - Suc (Suc j))"
    using j assms(2) by (simp add: rev_nth)
  have a: "rev (take (L - 1) acts) ! j = acts ! (L - Suc (Suc j))"
    using j assms(3) by (simp add: rev_nth)
  show "zip (slice_back weights (Some (- 1)) (Some 0))
           (zip (slice_back zs (Some (- 2)) None) (slice_back acts (Some (- 3)) None)) ! j =
         map (\<lambda>j. (weights ! (L - Suc j), zs ! (L - Suc (Suc j)), acts ! (L - Suc (Suc j))))
           [0..<L - 1] ! j"
    using j assms w z a
    by (simp add: slice_back_tail slice_back_from_2 slice_back_from_3)
qed

subsection \<open>The backward pass\<close>

text \<open>The loop of \<open>backward\<close> from its \<open>k\<close>-th iterate on, when it starts from the
  specification's error term.\<close>

lemma backward_loop_spec:
  fixes weights zs acts :: "ndarray list"
  assumes lens: "length weights = L"
    and zshape: "\<forall>l<L. nrows (zs ! l) = nrows (weights ! l) \<and> ncols (zs ! l) = N"
    and ashape: "\<forall>l<L. ncols (acts ! l) = N"
    and chain: "\<forall>l. Suc l < L \<longrightarrow> ncols (weights ! Suc l) = nrows (weights ! l)"
    and k: "k < L"
    and dshape: "nrows (spec_delta weights zs acts y k) = nrows (weights ! (L - Suc k))"
      "ncols (spec_delta weights zs acts y k) = N"
  shows "backward_loop
      (map (\<lambda>j. (weights ! (L - Suc j), zs ! (L - Suc (Suc j)), acts ! (L - Suc (Suc j))))
         [k..<L - 1])
      N (spec_delta weights zs acts y k) gws gbs =
    Inr (gws @ map (\<lambda>j. mat_mul (spec_delta weights zs acts y (Suc j))
                            (transpose_arr (acts ! (L - Suc (Suc j))))) [k..<L - 1],
         gbs @ map (\<lambda>j. mat_mul (spec_delta weights zs acts y (Suc j)) (ones N 1)) [k..<L - 1])"
  using k dshape
proof (induction "L - 1 - k" arbitrary: k gws gbs)
  case 0
  then have "[k..<L - 1] = []" by simp
  then show ?case by (simp only: list.map backward_loop.simps append_Nil2)
next
  case (Suc n)
  let ?d = "spec_delta weights zs acts y"
  let ?it = "\<lambda>j. (weights ! (L - Suc j), zs ! (L - Suc (Suc j)), acts ! (L - Suc (Suc j)))"
  from Suc.hyps(2) have k: "k < L - 1" by simp
  define W where "W = weights ! (L - Suc k)"
  define z where "z = zs ! (L - Suc (Suc k))"
  define a where "a = acts ! (L - Suc (Suc k))"
  have idx: "L - Suc (Suc k) < L" "Suc (L - Suc (Suc k)) = L - Suc k" "Suc (L - Suc (Suc k)) < L"
    using k by simp_all
  have z_rows: "nrows z = ncols W"
    using zshape [rule_format, OF idx(1)] chain [rule_format, OF idx(3)] idx(2)
    by (simp add: z_def W_def)
  have z_cols: "ncols z = N"
    using zshape [rule_format, OF idx(1)] by (simp add: z_def)
  have a_cols: "ncols a = N"
    using ashape [rule_format, OF idx(1)] by (simp add: a_def)
  have d_rows: "nrows (?d k) = nrows W" using Suc.prems(2) by (simp add: W_def)
  have d_cols: "ncols (?d k) = N" by (rule Suc.prems(3))
  have nxt: "?d (Suc k) = bc (*) (mat_mul (transpose_arr W) (?d k)) (g_prime z)"
    by (simp add: W_def z_def lens)
  have nxt_rows: "nrows (?d (Suc k)) = nrows (weights ! (L - Suc (Suc k)))"
    unfolding nxt using z_rows zshape [rule_format, OF idx(1)] by (simp add: z_def)
  have nxt_cols: "ncols (?d (Suc k)) = N"
    unfolding nxt using d_cols z_cols by simp
  have upt: "[k..<L - 1] = k # [Suc k..<L - 1]" using k by (simp add: upt_conv_Cons)
  have grads_ok: "grads N (?d (Suc k)) a =
      Inr (mat_mul (?d (Suc k)) (ones N 1), mat_mul (?d (Suc k)) (transpose_arr a))"
    using nxt_cols a_cols by (simp add: grads_def matmul_def)
  have prod_ok: "matmul (transpose_arr W) (?d k) = Inr (mat_mul (transpose_arr W) (?d k))"
    using d_rows by (simp add: matmul_def)
  have had_ok: "broadcast (*) (mat_mul (transpose_arr W) (?d k)) (g_prime z) = Inr (?d (Suc k))"
    unfolding nxt using z_rows z_cols d_cols by (simp add: broadcast_def)
  have step: "backward_loop (map ?it [k..<L - 1]) N (?d k) gws gbs =
      backward_loop (map ?it [Suc k..<L - 1]) N (?d (Suc k))
        (gws @ [mat_mul (?d (Suc k)) (transpose_arr a)])
        (gbs @ [mat_mul (?d (Suc k)) (ones N 1)])"
    unfolding upt list.map
    by (simp only: backward_loop.simps W_def [symmetric] z_def [symmetric] a_def [symmetric]
        prod_ok had_ok grads_ok sum.case prod.case)
  have n: "n = L - 1 - Suc k" using Suc.hyps(2) by simp
  have Sk: "Suc k < L" using k by simp
  have rows': "nrows (?d (Suc k)) = nrows (weights ! (L - Suc (Suc k)))" by (rule nxt_rows)
  from Suc.hyps(1) [OF n Sk rows' nxt_cols]
  have rest: "backward_loop (map ?it [Suc k..<L - 1]) N (?d (Suc k))
        (gws @ [mat_mul (?d (Suc k)) (transpose_arr a)])
        (gbs @ [mat_mul (?d (Suc k)) (ones N 1)]) =
      Inr ((gws @ [mat_mul (?d (Suc k)) (transpose_arr a)]) @
             map (\<lambda>j. mat_mul (?d (Suc j)) (transpose_arr (acts ! (L - Suc (Suc j)))))
               [Suc k..<L - 1],
           (gbs @ [mat_mul (?d (Suc k)) (ones N 1)]) @
             map (\<lambda>j. mat_mul (?d (Suc j)) (ones N 1)) [Suc k..<L - 1])" .
  show ?case
    unfolding step rest by (simp only: upt list.map append_assoc append.simps a_def)
qed

lemma map_upt_Suc_split:
  "0 < L \<Longrightarrow> f 0 # map (\<lambda>j. f (Suc j)) [0..<L - 1] = map f [0..<L]"
proof -
  assume "0 < L"
  then obtain m where m: "L = Suc m" by (cases L) auto
  have "[0..<Suc m] = 0 # map Suc [0..<m]"
    by (simp only: upt_rec [of 0 "Suc m"] map_Suc_upt) simp
  then show ?thesis by (simp add: m comp_def)
qed

text \<open>\<open>backward\<close> on a dictionary whose lists have the shapes \<open>forward\<close> leaves.\<close>

lemma backward_spec:
  fixes weights zs acts :: "ndarray list"
  assumes a: "model ''activations'' = Some (PyList acts)"
    and z: "model ''w_inputs'' = Some (PyList zs)"
    and w: "model ''weights'' = Some (PyList weights)"
    and lens: "length weights = L" "length zs = L" "length acts = Suc L" "0 < L"
    and zshape: "\<forall>l<L. nrows (zs ! l) = nrows (weights ! l) \<and> ncols (zs ! l) = N"
    and ashape: "\<forall>l<L. ncols (acts ! l) = N"
    and out: "nrows (last acts) = nrows (weights ! (L - 1))" "ncols (last acts) = N"
    and chain: "\<forall>l. Suc l < L \<longrightarrow> ncols (weights ! Suc l) = nrows (weights ! l)"
    and y: "nrows y = nrows (last acts)" "ncols y = N"
  shows "backward y model =
    Inr (model(''grad_weights'' \<mapsto>
                 PyList (rev (map (\<lambda>k. mat_mul (spec_delta weights zs acts y k)
                                         (transpose_arr (acts ! (L - Suc k)))) [0..<L])),
               ''grad_biases'' \<mapsto>
                 PyList (rev (map (\<lambda>k. mat_mul (spec_delta weights zs acts y k) (ones N 1))
                                [0..<L]))))"
proof -
  let ?d = "spec_delta weights zs acts y"
  have acts_ne: "acts \<noteq> []" and zs_ne: "zs \<noteq> []" and acts_2: "2 \<le> length acts"
    using lens by auto
  have i1: "index acts (- 1) = Inr (last acts)" by (rule index_last [OF acts_ne])
  have i2: "index zs (- 1) = Inr (last zs)" by (rule index_last [OF zs_ne])
  have i3: "index acts (- 2) = Inr (acts ! (L - 1))"
    using index_before_last [OF acts_2] lens by simp
  have last_zs: "last zs = zs ! (L - 1)" using lens zs_ne by (simp add: last_conv_nth)
  have L1: "L - 1 < L" using lens by simp
  have z_last: "nrows (last zs) = nrows (weights ! (L - 1))" "ncols (last zs) = N"
    using zshape [rule_format, OF L1] last_zs by simp_all
  have lp: "loss_prime (last acts) y = Inr (bc (-) (last acts) y)"
    using y out by (simp add: loss_prime_def broadcast_def)
  have d0: "broadcast (*) (bc (-) (last acts) y) (g_prime (last zs)) = Inr (?d 0)"
    using y out z_last by (simp add: broadcast_def)
  have d0_rows: "nrows (?d 0) = nrows (weights ! (L - Suc 0))"
    using y out z_last by simp
  have d0_cols: "ncols (?d 0) = N" using y out z_last by simp
  have a_cols: "ncols (acts ! (L - 1)) = N" by (rule ashape [rule_format, OF L1])
  have g0: "grads N (?d 0) (acts ! (L - 1)) =
      Inr (mat_mul (?d 0) (ones N 1), mat_mul (?d 0) (transpose_arr (acts ! (L - 1))))"
    using d0_cols a_cols y(2) by (simp add: grads_def matmul_def del: spec_delta.simps)
  have its: "zip (slice_back weights (Some (- 1)) (Some 0))
           (zip (slice_back zs (Some (- 2)) None) (slice_back acts (Some (- 3)) None)) =
         map (\<lambda>j. (weights ! (L - Suc j), zs ! (L - Suc (Suc j)), acts ! (L - Suc (Suc j))))
           [0..<L - 1]"
    by (rule loop_iterates_nth [OF lens(1-3)])
  have loop: "backward_loop
      (map (\<lambda>j. (weights ! (L - Suc j), zs ! (L - Suc (Suc j)), acts ! (L - Suc (Suc j))))
         [0..<L - 1])
      N (?d 0) [mat_mul (?d 0) (transpose_arr (acts ! (L - 1)))] [mat_mul (?d 0) (ones N 1)] =
    Inr ([mat_mul (?d 0) (transpose_arr (acts ! (L - 1)))] @
           map (\<lambda>j. mat_mul (?d (Suc j)) (transpose_arr (acts ! (L - Suc (Suc j))))) [0..<L - 1],
         [mat_mul (?d 0) (ones N 1)] @
           map (\<lambda>j. mat_mul (?d (Suc j)) (ones N 1)) [0..<L - 1])"
    by (rule backward_loop_spec [OF lens(1) zshape ashape chain lens(4) d0_rows d0_cols])
  have gws: "[mat_mul (?d 0) (transpose_arr (acts ! (L - 1)))] @
           map (\<lambda>j. mat_mul (?d (Suc j)) (transpose_arr (acts ! (L - Suc (Suc j))))) [0..<L - 1] =
         map (\<lambda>k. mat_mul (?d k) (transpose_arr (acts ! (L - Suc k)))) [0..<L]"
    using map_upt_Suc_split [OF lens(4),
        of "\<lambda>k. mat_mul (?d k) (transpose_arr (acts ! (L - Suc k)))"]
    by (simp del: spec_delta.simps)
  have gbs: "[mat_mul (?d 0) (ones N 1)] @
           map (\<lambda>j. mat_mul (?d (Suc j)) (ones N 1)) [0..<L - 1] =
         map (\<lambda>k. mat_mul (?d k) (ones N 1)) [0..<L]"
    using map_upt_Suc_split [OF lens(4), of "\<lambda>k. mat_mul (?d k) (ones N 1)"]
    by (simp del: spec_delta.simps)
  have ga: "getitem model ''activations'' = Inr (PyList acts)"
    and gz: "getitem model ''w_inputs'' = Inr (PyList zs)"
    and gw: "getitem model ''weights'' = Inr (PyList weights)"
    using a z w by (simp_all add: getitem_def)
  show ?thesis
    unfolding backward_def Let_def ga gz gw
      as_list_simps bind_ok_simps i1 i2 i3 lp d0 g0 prod.case its y(2) loop gws gbs
      slice_back_all
    by (rule refl)
qed

lemma spec_delta_shape:
  fixes weights zs acts :: "ndarray list"
  assumes lens: "length weights = L" "length zs = L" "0 < L"
    and zshape: "\<forall>l<L. nrows (zs ! l) = nrows (weights ! l) \<and> ncols (zs ! l) = N"
    and out: "nrows (last acts) = nrows (weights ! (L - 1))" "ncols (last acts) = N"
    and chain: "\<forall>l. Suc l < L \<longrightarrow> ncols (weights ! Suc l) = nrows (weights ! l)"
    and y: "nrows y = nrows (last acts)" "ncols y = N"
  shows "k < L \<Longrightarrow>
    nrows (spec_delta weights zs acts y k) = nrows (weights ! (L - Suc k)) \<and>
    ncols (spec_delta weights zs acts y k) = N"
proof (induction k)
  case 0
  have zs_ne: "zs \<noteq> []" using lens by auto
  have last_zs: "last zs = zs ! (L - 1)" using lens zs_ne by (simp add: last_conv_nth)
  have L1: "L - 1 < L" using lens by simp
  have "nrows (last zs) = nrows (weights ! (L - 1))" "ncols (last zs) = N"
    using zshape [rule_format, OF L1] last_zs by simp_all
  then show ?case using y out by simp
next
  case (Suc k)
  then have IH: "nrows (spec_delta weights zs acts y k) = nrows (weights ! (L - Suc k))"
      "ncols (spec_delta weights zs acts y k) = N"
    by simp_all
  have idx: "L - Suc (Suc k) < L" "Suc (L - Suc (Suc k)) = L - Suc k" "Suc (L - Suc (Suc k)) < L"
    using Suc.prems by simp_all
  have "nrows (zs ! (L - Suc (Suc k))) = ncols (weights ! (L - Suc k))"
    using zshape [rule_format, OF idx(1)] chain [rule_format, OF idx(3)] idx(2) by simp
  moreover have "ncols (zs ! (L - Suc (Suc k))) = N"
    using zshape [rule_format, OF idx(1)] by simp
  moreover have "nrows (zs ! (L - Suc (Suc k))) = nrows (weights ! (L - Suc (Suc k)))"
    using zshape [rule_format, OF idx(1)] by simp
  ultimately show ?case using IH(2) by (simp add: lens(1))
qed

text \<open>\<open>forward\<close> then \<open>backward\<close> on a well-shaped network of at least one layer.\<close>

lemma backward_after_forward:
  assumes w: "model0 ''weights'' = Some (PyList weights)"
    and b: "model0 ''biases'' = Some (PyList biases)"
    and shaped: "net_shaped ds weights biases"
    and layers: "2 \<le> length ds"
    and x: "nrows x = ds ! 0"
    and fwd: "forward x model0 = Inr (yhat, model)"
    and y: "nrows y = nrows yhat" "ncols y = ncols yhat"
  shows "\<exists>acts zs.
    model = model0(''activations'' \<mapsto> PyList acts, ''w_inputs'' \<mapsto> PyList zs) \<and>
    length acts = Suc (length weights) \<and> length zs = length weights \<and>
    0 < length weights \<and> length biases = length weights \<and> ncols y = ncols x \<and>
    (\<forall>l<length weights. nrows (acts ! l) = ncols (weights ! l)) \<and>
    (\<forall>l<length weights. nrows (biases ! l) = nrows (weights ! l) \<and> ncols (biases ! l) = 1) \<and>
    (\<forall>k<length weights.
       nrows (spec_delta weights zs acts y k) = nrows (weights ! (length weights - Suc k))) \<and>
    backward y model =
      Inr (model(''grad_weights'' \<mapsto>
                   PyList (rev (map (\<lambda>k. mat_mul (spec_delta weights zs acts y k)
                                           (transpose_arr (acts ! (length weights - Suc k))))
                                  [0..<length weights])),
                 ''grad_biases'' \<mapsto>
                   PyList (rev (map (\<lambda>k. mat_mul (spec_delta weights zs acts y k)
                                           (ones (ncols x) 1))
                                  [0..<length weights]))))"
proof -
  define L where "L = length weights"
  define N where "N = ncols x"
  from layers obtain d0 ds' where ds: "ds = d0 # ds'" by (cases ds) auto
  have len: "length ds = Suc L" "length biases = L"
    using net_shaped_length [OF shaped] by (simp_all add: L_def)
  have L_pos: "0 < L" using layers len by simp
  have wshape: "\<forall>l<L. nrows (weights ! l) = ds ! Suc l \<and> ncols (weights ! l) = ds ! l \<and>
                       nrows (biases ! l) = ds ! Suc l \<and> ncols (biases ! l) = 1"
    using shaped unfolding net_shaped_iff L_def by blast
  have shaped': "net_shaped (d0 # ds') weights biases" using shaped ds by simp
  have x': "nrows x = d0" using x ds by simp
  from forward_shaped [OF w b shaped' x']
  obtain As Zs where r:
    "forward x model0 =
      Inr (last (x # As),
           model0(''activations'' \<mapsto> PyList (x # As), ''w_inputs'' \<mapsto> PyList Zs))"
    "length As = L" "length Zs = L"
    "\<forall>l<L. Zs ! l = bc (+) (mat_mul (weights ! l) ((x # As) ! l)) (biases ! l) \<and>
        As ! l = g (Zs ! l) \<and>
        nrows (Zs ! l) = ds' ! l \<and> ncols (Zs ! l) = ncols x"
    unfolding L_def by blast
  from r(1) fwd have yhat: "yhat = last (x # As)"
    and model: "model = model0(''activations'' \<mapsto> PyList (x # As), ''w_inputs'' \<mapsto> PyList Zs)"
    by simp_all
  have r_shape: "\<forall>l<L. nrows (Zs ! l) = ds' ! l \<and> ncols (Zs ! l) = ncols x"
    and r_act: "\<forall>l<L. As ! l = g (Zs ! l)"
    using r(4) by blast+
  have zs_shape: "nrows (Zs ! l) = nrows (weights ! l) \<and> ncols (Zs ! l) = N" if "l < L" for l
    using r_shape [rule_format, OF that] wshape [rule_format, OF that] ds by (simp add: N_def)
  have as_shape: "nrows (As ! l) = nrows (weights ! l) \<and> ncols (As ! l) = N" if "l < L" for l
  proof -
    have "As ! l = g (Zs ! l)" using r_act [rule_format, OF that] .
    then show ?thesis using zs_shape [OF that] by simp
  qed
  have zshape: "\<forall>l<L. nrows (Zs ! l) = nrows (weights ! l) \<and> ncols (Zs ! l) = N"
    using zs_shape by blast
  have acts_shape: "nrows ((x # As) ! l) = ncols (weights ! l) \<and> ncols ((x # As) ! l) = N"
    if l: "l < L" for l
  proof (cases l)
    case 0
    then show ?thesis using wshape [rule_format, OF l] x by (simp add: N_def)
  next
    case (Suc j)
    then have j: "j < L" using l by simp
    from as_shape [OF j] wshape [rule_format, OF j] wshape [rule_format, OF l] Suc
    show ?thesis by simp
  qed
  have ashape: "\<forall>l<L. ncols ((x # As) ! l) = N" using acts_shape by blast
  have arows: "\<forall>l<L. nrows ((x # As) ! l) = ncols (weights ! l)" using acts_shape by blast
  have L1: "L - 1 < L" using L_pos by simp
  have last_acts: "last (x # As) = As ! (L - 1)"
  proof -
    have "As \<noteq> []" using r(2) L_pos by auto
    then have "last (x # As) = last As" by simp
    also have "\<dots> = As ! (length As - 1)" by (rule last_conv_nth) fact
    finally show ?thesis using r(2) by simp
  qed
  have out: "nrows (last (x # As)) = nrows (weights ! (L - 1))" "ncols (last (x # As)) = N"
    using as_shape [OF L1] last_acts by simp_all
  have chain: "\<forall>l. Suc l < L \<longrightarrow> ncols (weights ! Suc l) = nrows (weights ! l)"
  proof (intro allI impI)
    fix l assume l: "Suc l < L"
    then have "l < L" by simp
    from wshape [rule_format, OF l] wshape [rule_format, OF this]
    show "ncols (weights ! Suc l) = nrows (weights ! l)" by simp
  qed
  have y': "nrows y = nrows (last (x # As))" "ncols y = N"
    using y yhat out by simp_all
  have a: "model ''activations'' = Some (PyList (x # As))"
    and z: "model ''w_inputs'' = Some (PyList Zs)"
    and w': "model ''weights'' = Some (PyList weights)"
    using w by (simp_all add: model)
  have lens: "length weights = L" "length Zs = L" "length (x # As) = Suc L"
    using r(2,3) by (simp_all add: L_def)
  have bwd: "backward y model =
    Inr (model(''grad_weights'' \<mapsto>
                 PyList (rev (map (\<lambda>k. mat_mul (spec_delta weights Zs (x # As) y k)
                                         (transpose_arr ((x # As) ! (L - Suc k)))) [0..<L])),
               ''grad_biases'' \<mapsto>
                 PyList (rev (map (\<lambda>k. mat_mul (spec_delta weights Zs (x # As) y k) (ones N 1))
                                [0..<L]))))"
    by (rule backward_spec [OF a z w' lens L_pos zshape ashape out chain y'])
  have dshape: "\<forall>k<L. nrows (spec_delta weights Zs (x # As) y k) = nrows (weights ! (L - Suc k))"
    using spec_delta_shape [OF lens(1,2) L_pos zshape out chain y'] by blast
  have bshape: "\<forall>l<L. nrows (biases ! l) = nrows (weights ! l) \<and> ncols (biases ! l) = 1"
    using wshape by simp
  show ?thesis
  proof (intro exI conjI)
    show "model = model0(''activations'' \<mapsto> PyList (x # As), ''w_inputs'' \<mapsto> PyList Zs)"
      by (rule model)
    show "length (x # As) = Suc (length weights)" using lens by simp
    show "length Zs = length weights" using lens by simp
    show "0 < length weights" using L_pos by (simp add: L_def)
    show "length biases = length weights" using len by (simp add: L_def)
    show "ncols y = ncols x" using y' by (simp add: N_def)
    show "\<forall>l<length weights. nrows ((x # As) ! l) = ncols (weights ! l)"
      using arows by (simp add: L_def)
    show "\<forall>l<length weights. nrows (biases ! l) = nrows (weights ! l) \<and> ncols (biases ! l) = 1"
      using bshape by (simp add: L_def)
    show "\<forall>k<length weights.
       nrows (spec_delta weights Zs (x # As) y k) = nrows (weights ! (length weights - Suc k))"
      using dshape unfolding L_def .
    show "backward y model =
      Inr (model(''grad_weights'' \<mapsto>
                   PyList (rev (map (\<lambda>k. mat_mul (spec_delta weights Zs (x # As) y k)
                                           (transpose_arr ((x # As) ! (length weights - Suc k))))
                                  [0..<length weights])),
                 ''grad_biases'' \<mapsto>
                   PyList (rev (map (\<lambda>k. mat_mul (spec_delta weights Zs (x # As) y k)
                                           (ones (ncols x) 1))
                                  [0..<length weights]))))"
      using bwd unfolding L_def N_def .
  qed
qed

lemma rev_map_upt_nth:
  assumes "1 \<le> l" and "l \<le> L"
  shows "rev (map f [0..<L]) ! (l - 1) = f (L - l)"
proof -
  have "l - 1 < length (map f [0..<L])" using assms by simp
  then have "rev (map f [0..<L]) ! (l - 1) = map f [0..<L] ! (length (map f [0..<L]) - Suc (l - 1))"
    by (rule rev_nth)
  also have "length (map f [0..<L]) - Suc (l - 1) = L - l" using assms by simp
  also have "map f [0..<L] ! (L - l) = f (L - l)" using assms by simp
  finally show ?thesis .
qed

text \<open>
  C4. For a well-shaped model of \<open>L \<ge> 1\<close> layers on which \<open>forward\<close> has stored
  \<open>activations\<close> \<open>a\<^sub>0..a\<^sub>L\<close> and \<open>w_inputs\<close> \<open>z\<^sub>1..z\<^sub>L\<close>, and a target \<open>y\<close> of the shape of
  the output, \<open>backward\<close> returns and stores \<open>grad_weights\<close> and \<open>grad_biases\<close> with
  \<open>L\<close> entries each, aligned with \<open>weights\<close> and \<open>biases\<close> index for index and shape for
  shape: the entry of layer \<open>l\<close> (at index \<open>l - 1\<close>) is
  \<open>\<delta>\<^sub>l \<cdot> ones(batch, 1)\<close> for the bias and \<open>\<delta>\<^sub>l \<cdot> (a\<^sub>l\<^sub>-\<^sub>1)\<^sup>T\<close> for the weight, where
  \<open>\<delta>\<^sub>L = lossGradient(a\<^sub>L, y) \<odot> g'(z\<^sub>L)\<close> and \<open>\<delta>\<^sub>l\<^sub>-\<^sub>1 = (W\<^sub>l)\<^sup>T \<delta>\<^sub>l \<odot> g'(z\<^sub>l\<^sub>-\<^sub>1)\<close> for \<open>l > 1\<close>.
\<close>

theorem backward_gradients:
  assumes w: "model0 ''weights'' = Some (PyList weights)"
    and b: "model0 ''biases'' = Some (PyList biases)"
    and shaped: "net_shaped ds weights biases"
    and layers: "2 \<le> length ds"
    and x: "nrows x = ds ! 0"
    and fwd: "forward x model0 = Inr (yhat, model)"
    and y: "nrows y = nrows yhat" "ncols y = ncols yhat"
  shows "\<exists>activations zs grad_weights grad_biases.
    model ''activations'' = Some (PyList activations) \<and>
    model ''w_inputs'' = Some (PyList zs) \<and>
    model ''weights'' = Some (PyList weights) \<and>
    model ''biases'' = Some (PyList biases) \<and>
    backward y model =
      Inr (model(''grad_weights'' \<mapsto> PyList grad_weights,
                 ''grad_biases'' \<mapsto> PyList grad_biases)) \<and>
    length grad_weights = length weights \<and> length grad_biases = length biases \<and>
    (\<forall>l. 1 \<le> l \<and> l \<le> length weights \<longrightarrow>
       grad_biases ! (l - 1) =
         mat_mul (layer_delta weights zs activations y l) (ones (ncols y) 1) \<and>
       grad_weights ! (l - 1) =
         mat_mul (layer_delta weights zs activations y l) (transpose_arr (activations ! (l - 1))) \<and>
       nrows (grad_weights ! (l - 1)) = nrows (weights ! (l - 1)) \<and>
       ncols (grad_weights ! (l - 1)) = ncols (weights ! (l - 1)) \<and>
       nrows (grad_biases ! (l - 1)) = nrows (biases ! (l - 1)) \<and>
       ncols (grad_biases ! (l - 1)) = ncols (biases ! (l - 1))) \<and>
    layer_delta weights zs activations y (length weights) =
      bc (*) (bc (-) (last activations) y) (g_prime (last zs)) \<and>
    (\<forall>l. 1 < l \<and> l \<le> length weights \<longrightarrow>
       layer_delta weights zs activations y (l - 1) =
         bc (*) (mat_mul (transpose_arr (weights ! (l - 1))) (layer_delta weights zs activations y l))
                (g_prime (zs ! (l - 2))))"
proof -
  let ?L = "length weights"
  from backward_after_forward [OF assms]
  obtain acts zs where r:
    "model = model0(''activations'' \<mapsto> PyList acts, ''w_inputs'' \<mapsto> PyList zs)"
    "length acts = Suc ?L" "length zs = ?L" "0 < ?L" "length biases = ?L" "ncols y = ncols x"
    "\<forall>l<?L. nrows (acts ! l) = ncols (weights ! l)"
    "\<forall>l<?L. nrows (biases ! l) = nrows (weights ! l) \<and> ncols (biases ! l) = 1"
    "\<forall>k<?L. nrows (spec_delta weights zs acts y k) = nrows (weights ! (?L - Suc k))"
    "backward y model =
      Inr (model(''grad_weights'' \<mapsto>
                   PyList (rev (map (\<lambda>k. mat_mul (spec_delta weights zs acts y k)
                                           (transpose_arr (acts ! (?L - Suc k)))) [0..<?L])),
                 ''grad_biases'' \<mapsto>
                   PyList (rev (map (\<lambda>k. mat_mul (spec_delta weights zs acts y k)
                                           (ones (ncols x) 1)) [0..<?L]))))"
    by blast
  let ?gw = "rev (map (\<lambda>k. mat_mul (spec_delta weights zs acts y k)
                                 (transpose_arr (acts ! (?L - Suc k)))) [0..<?L])"
  let ?gb = "rev (map (\<lambda>k. mat_mul (spec_delta weights zs acts y k) (ones (ncols x) 1)) [0..<?L])"
  have per_layer:
    "?gb ! (l - 1) = mat_mul (layer_delta weights zs acts y l) (ones (ncols y) 1) \<and>
     ?gw ! (l - 1) = mat_mul (layer_delta weights zs acts y l) (transpose_arr (acts ! (l - 1))) \<and>
     nrows (?gw ! (l - 1)) = nrows (weights ! (l - 1)) \<and>
     ncols (?gw ! (l - 1)) = ncols (weights ! (l - 1)) \<and>
     nrows (?gb ! (l - 1)) = nrows (biases ! (l - 1)) \<and>
     ncols (?gb ! (l - 1)) = ncols (biases ! (l - 1))"
    if l: "1 \<le> l \<and> l \<le> ?L" for l
  proof -
    from l have l1: "1 \<le> l" and l2: "l \<le> ?L" by simp_all
    have idx: "?L - Suc (?L - l) = l - 1" "?L - l < ?L" "l - 1 < ?L" using l1 l2 by linarith+
    have gb: "?gb ! (l - 1) = mat_mul (layer_delta weights zs acts y l) (ones (ncols y) 1)"
      unfolding rev_map_upt_nth [OF l1 l2] layer_delta_def r(6) ..
    have gw: "?gw ! (l - 1) =
        mat_mul (layer_delta weights zs acts y l) (transpose_arr (acts ! (l - 1)))"
      unfolding rev_map_upt_nth [OF l1 l2] layer_delta_def idx(1) ..
    have d: "nrows (layer_delta weights zs acts y l) = nrows (weights ! (l - 1))"
      using r(9) [rule_format, OF idx(2)] idx(1) by (simp add: layer_delta_def)
    have a: "nrows (acts ! (l - 1)) = ncols (weights ! (l - 1))"
      by (rule r(7) [rule_format, OF idx(3)])
    have bs: "nrows (biases ! (l - 1)) = nrows (weights ! (l - 1))" "ncols (biases ! (l - 1)) = 1"
      using r(8) [rule_format, OF idx(3)] by simp_all
    show ?thesis
      unfolding gb gw using d a bs by simp
  qed
  have top: "layer_delta weights zs acts y ?L =
      bc (*) (bc (-) (last acts) y) (g_prime (last zs))"
    by (simp add: layer_delta_def)
  have rec: "layer_delta weights zs acts y (l - 1) =
         bc (*) (mat_mul (transpose_arr (weights ! (l - 1))) (layer_delta weights zs acts y l))
                (g_prime (zs ! (l - 2)))"
    if l: "1 < l \<and> l \<le> ?L" for l
  proof -
    obtain k where k: "?L - l = k" by simp
    with l have eq: "?L - (l - 1) = Suc k" "?L - Suc k = l - 1" "?L - Suc (Suc k) = l - 2"
      by linarith+
    show ?thesis
      unfolding layer_delta_def eq(1) k spec_delta.simps eq(2,3) ..
  qed
  show ?thesis
  proof (intro exI conjI)
    show "model ''activations'' = Some (PyList acts)" by (simp add: r(1))
    show "model ''w_inputs'' = Some (PyList zs)" by (simp add: r(1))
    show "model ''weights'' = Some (PyList weights)" using w by (simp add: r(1))
    show "model ''biases'' = Some (PyList biases)" using b by (simp add: r(1))
    show "backward y model =
      Inr (model(''grad_weights'' \<mapsto> PyList ?gw, ''grad_biases'' \<mapsto> PyList ?gb))"
      by (rule r(10))
    show "length ?gw = length weights" by simp
    show "length ?gb = length biases" using r(5) by simp
    show "\<forall>l. 1 \<le> l \<and> l \<le> ?L \<longrightarrow>
       ?gb ! (l - 1) = mat_mul (layer_delta weights zs acts y l) (ones (ncols y) 1) \<and>
       ?gw ! (l - 1) = mat_mul (layer_delta weights zs acts y l) (transpose_arr (acts ! (l - 1))) \<and>
       nrows (?gw ! (l - 1)) = nrows (weights ! (l - 1)) \<and>
       ncols (?gw ! (l - 1)) = ncols (weights ! (l - 1)) \<and>
       nrows (?gb ! (l - 1)) = nrows (biases ! (l - 1)) \<and>
       ncols (?gb ! (l - 1)) = ncols (biases ! (l - 1))"
      by (intro allI impI) (rule per_layer)
    show "layer_delta weights zs acts y ?L =
      bc (*) (bc (-) (last acts) y) (g_prime (last zs))"
      by (rule top)
    show "\<forall>l. 1 < l \<and> l \<le> ?L \<longrightarrow>
       layer_delta weights zs acts y (l - 1) =
         bc (*) (mat_mul (transpose_arr (weights ! (l - 1))) (layer_delta weights zs acts y l))
                (g_prime (zs ! (l - 2)))"
      by (intro allI impI) (rule rec)
  qed
qed

lemma small_model_shaped:
  "small_model ''weights'' = Some (PyList [NDArray 1 2 [0, 1]])"
  "small_model ''biases'' = Some (PyList [NDArray 1 1 [2]])"
  "net_shaped [2, 1] [NDArray 1 2 [0, 1]] [NDArray 1 1 [2]]"
  by (simp_all add: small_model_def)

theorem backward_gradients_witness:
  "forward small_x small_model = Inr (NDArray 1 1 [1 / 2], small_forward) \<and>
   backward small_y small_forward = Inr small_backward \<and>
   mat_mul (layer_delta [NDArray 1 2 [0, 1]] [NDArray 1 1 [0]] [small_x, NDArray 1 1 [1 / 2]]
              small_y 1) (transpose_arr small_x) = NDArray 1 2 [- 3 / 8, 1 / 4] \<and>
   mat_mul (layer_delta [NDArray 1 2 [0, 1]] [NDArray 1 1 [0]] [small_x, NDArray 1 1 [1 / 2]]
              small_y 1) (ones 1 1) = NDArray 1 1 [- 1 / 8]"
proof -
  have layers: "2 \<le> length [2, 1 :: nat]" by simp
  have x: "nrows small_x = [2, 1] ! 0" by (simp add: small_x_def)
  have y: "nrows small_y = nrows (NDArray 1 1 [1 / 2])" "ncols small_y = ncols (NDArray 1 1 [1 / 2])"
    by (simp_all add: small_y_def)
  from backward_gradients [OF small_model_shaped layers x forward_small y]
  obtain activations zs grad_weights grad_biases where r:
    "small_forward ''activations'' = Some (PyList activations)"
    "small_forward ''w_inputs'' = Some (PyList zs)"
    "backward small_y small_forward =
      Inr (small_forward(''grad_weights'' \<mapsto> PyList grad_weights,
                         ''grad_biases'' \<mapsto> PyList grad_biases))"
    "\<forall>l. 1 \<le> l \<and> l \<le> length [NDArray 1 2 [0, 1]] \<longrightarrow>
       grad_biases ! (l - 1) =
         mat_mul (layer_delta [NDArray 1 2 [0, 1]] zs activations small_y l) (ones (ncols small_y) 1) \<and>
       grad_weights ! (l - 1) =
         mat_mul (layer_delta [NDArray 1 2 [0, 1]] zs activations small_y l)
           (transpose_arr (activations ! (l - 1)))"
    by blast
  have acts: "activations = [small_x, NDArray 1 1 [1 / 2]]" and zs: "zs = [NDArray 1 1 [0]]"
    using r(1,2) by (simp_all add: small_forward_def)
  from r(3) backward_small
  have eq: "small_forward(''grad_weights'' \<mapsto> PyList grad_weights,
                          ''grad_biases'' \<mapsto> PyList grad_biases) = small_backward"
    by simp
  have gw: "grad_weights = [NDArray 1 2 [- 3 / 8, 1 / 4]]"
    using fun_cong [OF eq, of "''grad_weights''"] by (simp add: small_backward_def)
  have gb: "grad_biases = [NDArray 1 1 [- 1 / 8]]"
    using fun_cong [OF eq, of "''grad_biases''"] by (simp add: small_backward_def)
  from r(4) [rule_format, of 1]
  have "grad_biases ! 0 =
         mat_mul (layer_delta [NDArray 1 2 [0, 1]] zs activations small_y 1) (ones (ncols small_y) 1)"
    and "grad_weights ! 0 =
         mat_mul (layer_delta [NDArray 1 2 [0, 1]] zs activations small_y 1)
           (transpose_arr (activations ! 0))"
    by simp_all
  then have "mat_mul (layer_delta [NDArray 1 2 [0, 1]] [NDArray 1 1 [0]]
                [small_x, NDArray 1 1 [1 / 2]] small_y 1) (ones 1 1) = NDArray 1 1 [- 1 / 8]"
    and "mat_mul (layer_delta [NDArray 1 2 [0, 1]] [NDArray 1 1 [0]]
                [small_x, NDArray 1 1 [1 / 2]] small_y 1) (transpose_arr small_x) =
         NDArray 1 2 [- 3 / 8, 1 / 4]"
    unfolding acts zs gw gb by (simp_all add: small_y_def)
  then show ?thesis using forward_small backward_small by simp
qed

text \<open>
  C10. Under the same conditions \<open>backward\<close> returns a dictionary that differs from
  the one it was given at the keys \<open>grad_weights\<close> and \<open>grad_biases\<close> only: the entries
  \<open>weights\<close>, \<open>biases\<close>, \<open>nlayers\<close>, \<open>activations\<close> and \<open>w_inputs\<close> are the ones it had.
\<close>

theorem backward_frame:
  assumes w: "model0 ''weights'' = Some (PyList weights)"
    and b: "model0 ''biases'' = Some (PyList biases)"
    and shaped: "net_shaped ds weights biases"
    and layers: "2 \<le> length ds"
    and x: "nrows x = ds ! 0"
    and fwd: "forward x model0 = Inr (yhat, model)"
    and y: "nrows y = nrows yhat" "ncols y = ncols yhat"
  shows "\<exists>model'.
    backward y model = Inr model' \<and>
    model' ''weights'' = model ''weights'' \<and> model' ''biases'' = model ''biases'' \<and>
    model' ''nlayers'' = model ''nlayers'' \<and>
    model' ''activations'' = model ''activations'' \<and>
    model' ''w_inputs'' = model ''w_inputs'' \<and>
    (\<forall>key. key \<noteq> ''grad_weights'' \<and> key \<noteq> ''grad_biases'' \<longrightarrow> model' key = model key) \<and>
    model' ''grad_weights'' \<noteq> None \<and> model' ''grad_biases'' \<noteq> None"
proof -
  from backward_after_forward [OF assms]
  obtain gw gb where
    "backward y model = Inr (model(''grad_weights'' \<mapsto> PyList gw, ''grad_biases'' \<mapsto> PyList gb))"
    by blast
  then show ?thesis by simp
qed

theorem backward_frame_witness:
  "backward small_y small_forward = Inr small_backward \<and>
   small_backward ''weights'' = small_forward ''weights'' \<and>
   small_backward ''biases'' = small_forward ''biases'' \<and>
   small_backward ''nlayers'' = small_forward ''nlayers'' \<and>
   small_backward ''activations'' = small_forward ''activations'' \<and>
   small_backward ''w_inputs'' = small_forward ''w_inputs'' \<and>
   small_forward ''weights'' = Some (PyList [NDArray 1 2 [0, 1]])"
proof -
  have layers: "2 \<le> length [2, 1 :: nat]" by simp
  have x: "nrows small_x = [2, 1] ! 0" by (simp add: small_x_def)
  have y: "nrows small_y = nrows (NDArray 1 1 [1 / 2])" "ncols small_y = ncols (NDArray 1 1 [1 / 2])"
    by (simp_all add: small_y_def)
  from backward_frame [OF small_model_shaped layers x forward_small y]
  obtain model' where r: "backward small_y small_forward = Inr model'"
    "model' ''weights'' = small_forward ''weights''"
    "model' ''biases'' = small_forward ''biases''"
    "model' ''nlayers'' = small_forward ''nlayers''"
    "model' ''activations'' = small_forward ''activations''"
    "model' ''w_inputs'' = small_forward ''w_inputs''"
    by blast
  from r(1) backward_small have "model' = small_backward" by simp
  with r show ?thesis by (simp add: small_forward_def small_model_def)
qed

end
